theory Spec2Isabelle
  imports Main "HOL-Library.AList"
begin

section \<open>HWOC: the online enrichment engine of \<^verbatim>\<open>HWOC.py\<close>\<close>

text \<open>
  A shallow embedding of the online part of \<^verbatim>\<open>HWOC.py\<close>: the cache layer
  \<^verbatim>\<open>_cache_or_fetch_json\<close>, the three resolvers \<^verbatim>\<open>_wikipedia_summary\<close>,
  \<^verbatim>\<open>_intel_ark_specs\<close> and \<^verbatim>\<open>_techpowerup_gpu_specs\<close>, the orchestrator
  \<^verbatim>\<open>enrich_online\<close> and the part of \<^verbatim>\<open>main\<close> that leads to it.

  Conventions.
  \<^item> A Python \<^verbatim>\<open>str\<close> is a \<open>string\<close>; one \<open>char\<close> stands for one character
    (code point) of the Python string, so the model covers the code points 0 to 255.
  \<^item> A Python value that travels through the resolvers (a decoded JSON document, a
    resolver's result, a cached document) is a value of the datatype \<open>json\<close>. Numbers
    are integers: a JSON number with a fraction or an exponent, which Python decodes
    to a float, is outside the model.
  \<^item> A dict is the list of its items in insertion order, with pairwise distinct keys.
  \<^item> An exception is a value of the datatype \<open>error\<close>; a call that may raise returns
    \<open>error + 'a\<close>, with \<open>Inl\<close> the exception.
  \<^item> The module's globals and the network are explicit: every function that touches
    them takes the state and returns the new one.
\<close>

subsection \<open>Python values, exceptions and the dynamic operations the code uses\<close>

datatype json =
    JNull
  | JBool bool
  | JInt int
  | JStr string
  | JArr "json list"
  | JObj "(string \<times> json) list"

datatype error =
    NameError
  | AttributeError
  | IndexError
  | KeyError
  | TypeError
  | ValueError
  | RequestException
  | HTTPError

text \<open>Sequencing of calls that may raise: the first exception ends the computation.\<close>

definition bind_error :: "error + 'a \<Rightarrow> ('a \<Rightarrow> error + 'b) \<Rightarrow> error + 'b" where
  "bind_error r f = (case r of Inl e \<Rightarrow> Inl e | Inr x \<Rightarrow> f x)"

text \<open>Truth value of a Python object, as \<^verbatim>\<open>if x:\<close> and \<^verbatim>\<open>not x\<close> test it.\<close>

fun truthy :: "json \<Rightarrow> bool" where
  "truthy JNull = False"
| "truthy (JBool b) = b"
| "truthy (JInt i) = (i \<noteq> 0)"
| "truthy (JStr s) = (s \<noteq> [])"
| "truthy (JArr xs) = (xs \<noteq> [])"
| "truthy (JObj kvs) = (kvs \<noteq> [])"

text \<open>\<^verbatim>\<open>isinstance(x, dict)\<close>.\<close>

fun is_dict :: "json \<Rightarrow> bool" where
  "is_dict (JObj kvs) = True"
| "is_dict _ = False"

text \<open>
  \<^verbatim>\<open>x.get(key, default)\<close>: only a dict has the method; on any other value the
  attribute lookup raises \<^verbatim>\<open>AttributeError\<close>.
\<close>

fun py_get :: "json \<Rightarrow> string \<Rightarrow> json \<Rightarrow> error + json" where
  "py_get (JObj kvs) k dflt = Inr (case map_of kvs k of None \<Rightarrow> dflt | Some v \<Rightarrow> v)"
| "py_get _ k dflt = Inl AttributeError"

text \<open>
  \<^verbatim>\<open>x[0]\<close>: the first element of a list, the first character of a string
  (\<^verbatim>\<open>IndexError\<close> when empty); a dict decoded from JSON has string keys only, so
  the key \<^verbatim>\<open>0\<close> is missing; the other values are not subscriptable.
\<close>

fun py_item0 :: "json \<Rightarrow> error + json" where
  "py_item0 (JArr []) = Inl IndexError"
| "py_item0 (JArr (x # xs)) = Inr x"
| "py_item0 (JStr []) = Inl IndexError"
| "py_item0 (JStr (c # cs)) = Inr (JStr [c])"
| "py_item0 (JObj kvs) = Inl KeyError"
| "py_item0 _ = Inl TypeError"

text \<open>
  \<^verbatim>\<open>x[:1200]\<close>: a string or a list is cut to its first 1200 items; a dict raises
  (\<^verbatim>\<open>TypeError\<close>, an unhashable slice, up to Python 3.11 and \<^verbatim>\<open>KeyError\<close> from
  3.12 on; both are \<^verbatim>\<open>Exception\<close>s and nothing in the program tells them apart); the
  other values are not subscriptable.
\<close>

fun py_slice_1200 :: "json \<Rightarrow> error + json" where
  "py_slice_1200 (JStr s) = Inr (JStr (take 1200 s))"
| "py_slice_1200 (JArr xs) = Inr (JArr (take 1200 xs))"
| "py_slice_1200 _ = Inl TypeError"

subsection \<open>Strings\<close>

text \<open>\<^verbatim>\<open>str.isspace\<close> on one character, which is also what \<^verbatim>\<open>\s\<close> matches.\<close>

definition isspace :: "char \<Rightarrow> bool" where
  "isspace c = (let n = (of_char c :: nat) in
     (9 \<le> n \<and> n \<le> 13) \<or> (28 \<le> n \<and> n \<le> 32) \<or> n = 133 \<or> n = 160)"

text \<open>
  \<^verbatim>\<open>re.sub(r"\s+", " ", s)\<close>: every maximal run of whitespace becomes one space.
  The flag says whether the previous character was whitespace.
\<close>

fun sub_spaces :: "bool \<Rightarrow> string \<Rightarrow> string" where
  "sub_spaces in_run [] = []"
| "sub_spaces in_run (c # cs) =
     (if isspace c then (if in_run then sub_spaces True cs else CHR '' '' # sub_spaces True cs)
      else c # sub_spaces False cs)"

definition strip :: "string \<Rightarrow> string" where
  "strip s = rev (dropWhile isspace (rev (dropWhile isspace s)))"

definition normspace :: "string option \<Rightarrow> string" where
  "normspace s = strip (sub_spaces False (case s of None \<Rightarrow> [] | Some t \<Rightarrow> t))"

text \<open>\<^verbatim>\<open>str.lower\<close>: in the code points 0 to 255 the upper-case letters are A to Z and
  the letters from 192 to 222 other than the multiplication sign 215.\<close>

definition lower_char :: "char \<Rightarrow> char" where
  "lower_char c = (let n = (of_char c :: nat) in
     if (65 \<le> n \<and> n \<le> 90) \<or> (192 \<le> n \<and> n \<le> 222 \<and> n \<noteq> 215) then char_of (n + 32) else c)"

definition lower :: "string \<Rightarrow> string" where
  "lower s = map lower_char s"

definition startswith :: "string \<Rightarrow> string \<Rightarrow> bool" where
  "startswith s p = (take (length p) s = p)"

definition endswith :: "string \<Rightarrow> string \<Rightarrow> bool" where
  "endswith s p = (length p \<le> length s \<and> drop (length s - length p) s = p)"

text \<open>\<^verbatim>\<open>p in s\<close> on strings: \<open>p\<close> occurs in \<open>s\<close> as a contiguous piece.\<close>

fun contains :: "string \<Rightarrow> string \<Rightarrow> bool" where
  "contains [] p = (p = [])"
| "contains (c # cs) p = (startswith (c # cs) p \<or> contains cs p)"

text \<open>Decimal digits of a natural number, and \<^verbatim>\<open>str(i)\<close> of an integer.\<close>

definition digit_char :: "nat \<Rightarrow> char" where
  "digit_char d = char_of (48 + d)"

function str_nat :: "nat \<Rightarrow> string" where
  "str_nat n = (if n < 10 then [digit_char n] else str_nat (n div 10) @ [digit_char (n mod 10)])"
  by pat_completeness auto
termination
  by (relation "measure (\<lambda>n. n)") auto

declare str_nat.simps [simp del]

definition str_int :: "int \<Rightarrow> string" where
  "str_int i = (if i < 0 then CHR ''-'' # str_nat (nat (- i)) else str_nat (nat i))"

text \<open>Two hexadecimal digits of a byte, upper case (\<^verbatim>\<open>quote\<close>) or lower case (\<^verbatim>\<open>repr\<close>).\<close>

definition hex_digit :: "bool \<Rightarrow> nat \<Rightarrow> char" where
  "hex_digit upper d = (if d < 10 then char_of (48 + d) else char_of ((if upper then 55 else 87) + d))"

definition hex_byte :: "bool \<Rightarrow> nat \<Rightarrow> string" where
  "hex_byte upper b = [hex_digit upper (b div 16 mod 16), hex_digit upper (b mod 16)]"

text \<open>
  \<^verbatim>\<open>urllib.parse.quote(s)\<close> with its default \<^verbatim>\<open>safe='/'\<close>: letters, digits and
  \<^verbatim>\<open>_.-~/\<close> stay, every other character is encoded in UTF-8 (two bytes from code
  point 128 on) and each byte written as \<^verbatim>\<open>%XX\<close>.
\<close>

definition quote_safe :: "char \<Rightarrow> bool" where
  "quote_safe c = (let n = (of_char c :: nat) in
     (48 \<le> n \<and> n \<le> 57) \<or> (65 \<le> n \<and> n \<le> 90) \<or> (97 \<le> n \<and> n \<le> 122) \<or> c \<in> set ''_.-~/'')"

definition quote_char :: "char \<Rightarrow> string" where
  "quote_char c = (let n = (of_char c :: nat) in
     if quote_safe c then [c]
     else if n < 128 then CHR ''%'' # hex_byte True n
     else CHR ''%'' # hex_byte True (192 + n div 64) @ CHR ''%'' # hex_byte True (128 + n mod 64))"

definition quote :: "string \<Rightarrow> string" where
  "quote s = concat (map quote_char s)"

text \<open>
  \<^verbatim>\<open>repr\<close> of a string: single quotes, or double quotes when the string has a single
  quote and no double quote; the quote character and the backslash are escaped, and
  so are the characters that are not printable.
\<close>

definition repr_quote :: "string \<Rightarrow> char" where
  "repr_quote s = (if CHR 0x27 \<in> set s \<and> CHR 0x22 \<notin> set s then CHR 0x22 else CHR 0x27)"

definition repr_char :: "char \<Rightarrow> char \<Rightarrow> string" where
  "repr_char q c = (let n = (of_char c :: nat) in
     if c = q \<or> n = 92 then [CHR 0x5C, c]
     else if n = 9 then [CHR 0x5C, CHR ''t'']
     else if n = 10 then [CHR 0x5C, CHR ''n'']
     else if n = 13 then [CHR 0x5C, CHR ''r'']
     else if n < 32 \<or> (127 \<le> n \<and> n \<le> 160) \<or> n = 173 then [CHR 0x5C, CHR ''x''] @ hex_byte False n
     else [c])"

definition repr_str :: "string \<Rightarrow> string" where
  "repr_str s = (let q = repr_quote s in q # concat (map (repr_char q) s) @ [q])"

text \<open>\<^verbatim>\<open>", ".join(xs)\<close>.\<close>

fun join_comma :: "string list \<Rightarrow> string" where
  "join_comma [] = []"
| "join_comma [x] = x"
| "join_comma (x # y # ys) = x @ '', '' @ join_comma (y # ys)"

text \<open>\<^verbatim>\<open>repr(x)\<close>, and \<^verbatim>\<open>str(x)\<close> as an f-string writes a value: a string is written
  as it is, every other value as its \<^verbatim>\<open>repr\<close>.\<close>

fun py_repr :: "json \<Rightarrow> string" where
  "py_repr JNull = ''None''"
| "py_repr (JBool b) = (if b then ''True'' else ''False'')"
| "py_repr (JInt i) = str_int i"
| "py_repr (JStr s) = repr_str s"
| "py_repr (JArr xs) = ''['' @ join_comma (map py_repr xs) @ '']''"
| "py_repr (JObj kvs) =
     ''{'' @ join_comma (map (\<lambda>kv. repr_str (fst kv) @ '': '' @ py_repr (snd kv)) kvs) @ ''}''"

definition py_str :: "json \<Rightarrow> string" where
  "py_str x = (case x of JStr s \<Rightarrow> s | _ \<Rightarrow> py_repr x)"

subsection \<open>Fetched documents, the network and the module's globals\<close>

text \<open>
  What \<^verbatim>\<open>BeautifulSoup(text, "html.parser")\<close> lets the code see of a page:
  \<^item> \<open>anchors\<close>: for each element of \<^verbatim>\<open>select("a")\<close>, in document order, its
    \<^verbatim>\<open>href\<close> attribute when it has one;
  \<^item> \<open>dts\<close>: for each element of \<^verbatim>\<open>select("dt")\<close> its text and, when
    \<^verbatim>\<open>find_next_sibling("dd")\<close> finds one, the text of that sibling;
  \<^item> \<open>rows\<close>: for each element of \<^verbatim>\<open>select("table tr")\<close> the texts of the cells
    \<^verbatim>\<open>find_all(["td", "th"])\<close> returns;
  \<^item> \<open>title\<close>: the text of the \<^verbatim>\<open>title\<close> element, when the page has one.
\<close>

record soup =
  anchors :: "string option list"
  dts :: "(string \<times> string option) list"
  rows :: "string list list"
  title :: "string option"

text \<open>
  A response of \<^verbatim>\<open>requests\<close>: its status, what \<^verbatim>\<open>.json()\<close> decodes (\<open>None\<close> when
  the body is not JSON and the call raises) and the parsed view of \<^verbatim>\<open>.text\<close>.
\<close>

record response =
  status_code :: nat
  json_body :: "json option"
  parsed :: soup

text \<open>
  The network answers the \<open>n\<close>-th request of the run for a URL with a response, or
  with \<open>None\<close> when the request fails (no connection, timeout).
\<close>

type_synonym network = "nat \<Rightarrow> string \<Rightarrow> response option"

text \<open>
  The source calls \<^verbatim>\<open>CACHE.get\<close>, \<^verbatim>\<open>CACHE.set\<close> and \<^verbatim>\<open>CACHE.invalidate\<close>, but the
  class of that object is not in it. The three operations follow the contract of
  section 4.1 of the specification, over a store that maps a key to a document.
\<close>

type_synonym cache_store = "string \<rightharpoonup> json"

text \<open>Modelled from the spec: \<^verbatim>\<open>get(key) -> Optional<Document>\<close> of the cache store,
  missing from the source; the document stored under the key, if any.\<close>

definition cache_get :: "cache_store \<Rightarrow> string \<Rightarrow> json option" where
  "cache_get c key = c key"

text \<open>Modelled from the spec: \<^verbatim>\<open>set(key, Document) -> void\<close> of the cache store,
  missing from the source; the document replaces what the key had.\<close>

definition cache_set :: "cache_store \<Rightarrow> string \<Rightarrow> json \<Rightarrow> cache_store" where
  "cache_set c key doc = c(key \<mapsto> doc)"

text \<open>Modelled from the spec: \<^verbatim>\<open>invalidate() -> void\<close> of the cache store, missing
  from the source; it clears all entries.\<close>

definition cache_invalidate :: "cache_store \<Rightarrow> cache_store" where
  "cache_invalidate c = Map.empty"

text \<open>
  The state the functions share: the binding of the global name \<^verbatim>\<open>CACHE\<close> (\<open>None\<close>
  when the module's namespace has no such name, so that reading it raises
  \<^verbatim>\<open>NameError\<close>) and the URLs requested so far, oldest first.
\<close>

record state =
  CACHE :: "cache_store option"
  requests :: "string list"

text \<open>
  The namespace of the module as the source file leaves it: \<^verbatim>\<open>CACHE_DIR\<close> is assigned
  (line 59), \<^verbatim>\<open>CACHE\<close> never is, and no import brings it in.
\<close>

definition module_state :: state where
  "module_state = \<lparr>CACHE = None, requests = []\<rparr>"

text \<open>\<^verbatim>\<open>_http_get\<close> (lines 211-215): one request; \<^verbatim>\<open>raise_for_status\<close> raises on a
  status from 400 to 599.\<close>

definition http_get :: "network \<Rightarrow> string \<Rightarrow> state \<Rightarrow> (error + response) \<times> state" where
  "http_get net url s =
     (let s' = s\<lparr>requests := requests s @ [url]\<rparr> in
      case net (length (requests s)) url of
        None \<Rightarrow> (Inl RequestException, s')
      | Some r \<Rightarrow>
          if 400 \<le> status_code r \<and> status_code r < 600 then (Inl HTTPError, s')
          else (Inr r, s'))"

definition response_json :: "response \<Rightarrow> error + json" where
  "response_json r = (case json_body r of None \<Rightarrow> Inl ValueError | Some j \<Rightarrow> Inr j)"

subsection \<open>The cache layer\<close>

text \<open>\<^verbatim>\<open>_cache_or_fetch_json\<close> (lines 217-226). The fetch function is a closure that
  may request documents and may raise.\<close>

type_synonym fetch_fn = "state \<Rightarrow> (error + json) \<times> state"

text \<open>An optional document as the Python value \<^verbatim>\<open>get\<close> returns: \<^verbatim>\<open>None\<close> when absent.\<close>

definition or_None :: "json option \<Rightarrow> json" where
  "or_None d = (case d of None \<Rightarrow> JNull | Some x \<Rightarrow> x)"

definition cache_or_fetch_json :: "string \<Rightarrow> fetch_fn \<Rightarrow> state \<Rightarrow> (error + json) \<times> state" where
  "cache_or_fetch_json key fetch_fn s =
     (case CACHE s of
        None \<Rightarrow> (Inl NameError, s)
      | Some c \<Rightarrow>
          (let cached = or_None (cache_get c key) in
           if truthy cached then (Inr cached, s)
           else
             (case fetch_fn s of
                (Inl e, s1) \<Rightarrow> (Inl e, s1)
              | (Inr data, s1) \<Rightarrow>
                  if is_dict data then
                    (case CACHE s1 of
                       None \<Rightarrow> (Inl NameError, s1)
                     | Some c1 \<Rightarrow> (Inr data, s1\<lparr>CACHE := Some (cache_set c1 key data)\<rparr>))
                  else (Inr (JObj []), s1))))"

subsection \<open>The generic fallback resolver\<close>

text \<open>Line 236: \<^verbatim>\<open>j.get("query", {}).get("search", [{}])[0].get("pageid")\<close>.\<close>

definition search_pageid :: "json \<Rightarrow> error + json" where
  "search_pageid j =
     bind_error (py_get j ''query'' (JObj [])) (\<lambda>query.
     bind_error (py_get query ''search'' (JArr [JObj []])) (\<lambda>search.
     bind_error (py_item0 search) (\<lambda>first.
     py_get first ''pageid'' JNull)))"

text \<open>Lines 242-243: \<^verbatim>\<open>j2.get("query", {}).get("pages", {})\<close>, then
  \<^verbatim>\<open>pages.get(str(pageid), {}).get("extract", "")\<close>.\<close>

definition page_extract :: "json \<Rightarrow> json \<Rightarrow> error + json" where
  "page_extract j2 pageid =
     bind_error (py_get j2 ''query'' (JObj [])) (\<lambda>query.
     bind_error (py_get query ''pages'' (JObj [])) (\<lambda>pages.
     bind_error (py_get pages (py_str pageid) (JObj [])) (\<lambda>page.
     py_get page ''extract'' (JStr []))))"

text \<open>Lines 244-245: the result built from the page id and the extract.\<close>

definition summary_result :: "json \<Rightarrow> json \<Rightarrow> error + json" where
  "summary_result pageid extract =
     (let fullurl = ''https://en.wikipedia.org/?curid='' @ py_str pageid in
      bind_error (py_slice_1200 extract) (\<lambda>summary.
      Inr (JObj [(''source'', JStr ''wikipedia''),
                 (''official_url'', JStr fullurl),
                 (''fields'', JObj [(''summary'', summary)])])))"

text \<open>The body of the \<^verbatim>\<open>try\<close> of \<^verbatim>\<open>fetch\<close> in \<^verbatim>\<open>_wikipedia_summary\<close> (lines 232-245),
  with its two URLs \<^verbatim>\<open>url\<close> (lines 233-234) and \<^verbatim>\<open>url2\<close> (line 240).\<close>

definition wikipedia_url :: "string \<Rightarrow> string" where
  "wikipedia_url title' =
     (let q = quote title'
      in ''https://en.wikipedia.org/w/api.php?action=query&list=search&srsearch='' @ q
         @ ''&format=json&srlimit=1'')"

definition wikipedia_url2 :: "json \<Rightarrow> string" where
  "wikipedia_url2 pageid =
     ''https://en.wikipedia.org/w/api.php?action=query&prop=extracts&explaintext=1&pageids=''
     @ py_str pageid @ ''&format=json''"

definition wikipedia_try :: "network \<Rightarrow> string \<Rightarrow> state \<Rightarrow> (error + json) \<times> state" where
  "wikipedia_try net title' s =
     (let url = wikipedia_url title'
      in case http_get net url s of
           (Inl e, s1) \<Rightarrow> (Inl e, s1)
         | (Inr r, s1) \<Rightarrow>
             (case bind_error (response_json r) search_pageid of
                Inl e \<Rightarrow> (Inl e, s1)
              | Inr pageid \<Rightarrow>
                  if \<not> truthy pageid then (Inr (JObj []), s1)
                  else
                    (let url2 = wikipedia_url2 pageid
                     in case http_get net url2 s1 of
                          (Inl e, s2) \<Rightarrow> (Inl e, s2)
                        | (Inr r2, s2) \<Rightarrow>
                            (bind_error (response_json r2) (\<lambda>j2.
                             bind_error (page_extract j2 pageid) (\<lambda>extract.
                             summary_result pageid extract)), s2))))"

text \<open>\<^verbatim>\<open>fetch\<close> of \<^verbatim>\<open>_wikipedia_summary\<close>: \<^verbatim>\<open>except Exception: return {}\<close>.\<close>

definition wikipedia_fetch :: "network \<Rightarrow> string \<Rightarrow> fetch_fn" where
  "wikipedia_fetch net title' s =
     (case wikipedia_try net title' s of
        (Inl e, s') \<Rightarrow> (Inr (JObj []), s')
      | (Inr d, s') \<Rightarrow> (Inr d, s'))"

text \<open>\<^verbatim>\<open>_wikipedia_summary\<close> (lines 228-248).\<close>

definition wikipedia_summary :: "network \<Rightarrow> string \<Rightarrow> state \<Rightarrow> (error + json) \<times> state" where
  "wikipedia_summary net title' s =
     cache_or_fetch_json (''wikipedia:'' @ title') (wikipedia_fetch net title') s"

subsection \<open>The vendor-specific resolvers\<close>

text \<open>\<^verbatim>\<open>a.get("href", "")\<close>, and the first link of a search page that has the path
  marker and ends in \<^verbatim>\<open>.html\<close> (lines 258 and 290).\<close>

definition href_of :: "string option \<Rightarrow> string" where
  "href_of a = (case a of None \<Rightarrow> [] | Some h \<Rightarrow> h)"

definition first_href :: "string \<Rightarrow> soup \<Rightarrow> string option" where
  "first_href marker doc =
     find (\<lambda>h. contains h marker \<and> endswith h ''.html'') (map href_of (anchors doc))"

text \<open>\<^verbatim>\<open>if not href\<close>: no link, or an empty one.\<close>

definition no_href :: "string option \<Rightarrow> bool" where
  "no_href href = (case href of None \<Rightarrow> True | Some h \<Rightarrow> h = [])"

text \<open>
  A dict from strings to strings under construction is an association list in
  insertion order; \<^verbatim>\<open>d[k] = v\<close> is \<open>AList.update k v d\<close>, which replaces the value of
  a key that is there and appends a new key.

  Lines 264-265: the dict comprehension over the \<^verbatim>\<open>dt\<close> elements that have a
  \<^verbatim>\<open>dd\<close> sibling.
\<close>

fun dt_specs :: "(string \<times> string) list \<Rightarrow> (string \<times> string option) list \<Rightarrow> (string \<times> string) list" where
  "dt_specs specs [] = specs"
| "dt_specs specs ((dt_text, None) # els) = dt_specs specs els"
| "dt_specs specs ((dt_text, Some dd_text) # els) =
     dt_specs (AList.update (normspace (Some dt_text)) (normspace (Some dd_text)) specs) els"

text \<open>Lines 267-269 and 297-299: the loop over the table rows with at least two cells.\<close>

fun row_specs :: "(string \<times> string) list \<Rightarrow> string list list \<Rightarrow> (string \<times> string) list" where
  "row_specs specs [] = specs"
| "row_specs specs ((c0 # c1 # cells) # trs) =
     row_specs (AList.update (normspace (Some c0)) (normspace (Some c1)) specs) trs"
| "row_specs specs (tds # trs) = row_specs specs trs"

definition intel_wanted :: "string list" where
  "intel_wanted = [''Total Cores'', ''Total Threads'', ''Max Turbo Frequency'',
     ''Processor Base Frequency'', ''Cache'', ''Bus Speed'', ''TDP'', ''Lithography'',
     ''Max Memory Size'', ''Memory Types'', ''Max # of PCI Express Lanes'',
     ''Processor Graphics'']"

definition tpu_wanted :: "string list" where
  "tpu_wanted = [''GPU Name'', ''GPU Variant'', ''Architecture'', ''Foundry'', ''Process Size'',
     ''TDP'', ''Transistors'', ''Die Size'', ''Base Clock'', ''Boost Clock'', ''Memory Size'',
     ''Memory Type'', ''Memory Bus'', ''Bandwidth'', ''Release Date'']"

text \<open>\<^verbatim>\<open>{k: v for k, v in specs.items() if k in wanted}\<close>.\<close>

definition filter_wanted :: "string list \<Rightarrow> (string \<times> string) list \<Rightarrow> (string \<times> string) list" where
  "filter_wanted wanted specs = filter (\<lambda>kv. fst kv \<in> set wanted) specs"

text \<open>\<^verbatim>\<open>normspace(psoup.title.get_text()) if psoup.title else name\<close>.\<close>

definition title_or :: "soup \<Rightarrow> string \<Rightarrow> string" where
  "title_or psoup nm = (case title psoup of Some t \<Rightarrow> normspace (Some t) | None \<Rightarrow> nm)"

text \<open>\<^verbatim>\<open>filtered or specs or {"title": title}\<close>.\<close>

definition choose_fields ::
  "(string \<times> string) list \<Rightarrow> (string \<times> string) list \<Rightarrow> string \<Rightarrow> (string \<times> string) list" where
  "choose_fields filtered specs ttl =
     (if filtered \<noteq> [] then filtered else if specs \<noteq> [] then specs else [(''title'', ttl)])"

text \<open>The \<^verbatim>\<open>fields\<close> of \<^verbatim>\<open>_intel_ark_specs\<close> from the detail page (lines 264-277).\<close>

definition intel_ark_fields :: "soup \<Rightarrow> string \<Rightarrow> (string \<times> string) list" where
  "intel_ark_fields psoup cpu_name =
     (let specs0 = dt_specs [] (dts psoup);
          specs = (if specs0 = [] then row_specs specs0 (rows psoup) else specs0);
          filtered = filter_wanted intel_wanted specs
      in choose_fields filtered specs (title_or psoup cpu_name))"

text \<open>The \<^verbatim>\<open>fields\<close> of \<^verbatim>\<open>_techpowerup_gpu_specs\<close> from the detail page (lines 296-307).\<close>

definition techpowerup_fields :: "soup \<Rightarrow> string \<Rightarrow> (string \<times> string) list" where
  "techpowerup_fields psoup gpu_name =
     (let specs = row_specs [] (rows psoup);
          filtered = filter_wanted tpu_wanted specs
      in choose_fields filtered specs (title_or psoup gpu_name))"

definition fields_json :: "(string \<times> string) list \<Rightarrow> json" where
  "fields_json kvs = JObj (map (\<lambda>kv. (fst kv, JStr (snd kv))) kvs)"

definition spec_result :: "string \<Rightarrow> string \<Rightarrow> (string \<times> string) list \<Rightarrow> json" where
  "spec_result src href kvs =
     JObj [(''source'', JStr src), (''official_url'', JStr href), (''fields'', fields_json kvs)]"

text \<open>The body of the \<^verbatim>\<open>try\<close> of \<^verbatim>\<open>fetch\<close> in \<^verbatim>\<open>_intel_ark_specs\<close> (lines 254-277).\<close>

definition intel_search_url :: "string \<Rightarrow> string" where
  "intel_search_url cpu_name =
     (let q = quote cpu_name
      in ''https://ark.intel.com/content/www/us/en/ark/search.html?q='' @ q)"

definition intel_ark_try :: "network \<Rightarrow> string \<Rightarrow> state \<Rightarrow> (error + json) \<times> state" where
  "intel_ark_try net cpu_name s =
     (let search_url = intel_search_url cpu_name
      in case http_get net search_url s of
           (Inl e, s1) \<Rightarrow> (Inl e, s1)
         | (Inr r, s1) \<Rightarrow>
             (let href = first_href ''/products/'' (parsed r) in
              if no_href href then wikipedia_summary net cpu_name s1
              else
                (let h = href_of href;
                     href' = (if startswith h ''http'' then h else ''https://ark.intel.com'' @ h)
                 in case http_get net href' s1 of
                      (Inl e, s2) \<Rightarrow> (Inl e, s2)
                    | (Inr pr, s2) \<Rightarrow>
                        (Inr (spec_result ''intel_ark'' href' (intel_ark_fields (parsed pr) cpu_name)), s2))))"

text \<open>\<^verbatim>\<open>fetch\<close> of \<^verbatim>\<open>_intel_ark_specs\<close>: the handler of the \<^verbatim>\<open>try\<close> calls the
  fallback resolver, also when the exception came from the fallback resolver called
  inside the \<^verbatim>\<open>try\<close> (line 260).\<close>

definition intel_ark_fetch :: "network \<Rightarrow> string \<Rightarrow> fetch_fn" where
  "intel_ark_fetch net cpu_name s =
     (case intel_ark_try net cpu_name s of
        (Inl e, s') \<Rightarrow> wikipedia_summary net cpu_name s'
      | (Inr d, s') \<Rightarrow> (Inr d, s'))"

text \<open>\<^verbatim>\<open>_intel_ark_specs\<close> (lines 250-280).\<close>

definition intel_ark_specs :: "network \<Rightarrow> string \<Rightarrow> state \<Rightarrow> (error + json) \<times> state" where
  "intel_ark_specs net cpu_name s =
     cache_or_fetch_json (''intel:'' @ cpu_name) (intel_ark_fetch net cpu_name) s"

text \<open>The body of the \<^verbatim>\<open>try\<close> of \<^verbatim>\<open>fetch\<close> in \<^verbatim>\<open>_techpowerup_gpu_specs\<close>
  (lines 286-307).\<close>

definition techpowerup_search_url :: "string \<Rightarrow> string" where
  "techpowerup_search_url gpu_name =
     (let q = quote gpu_name
      in ''https://www.techpowerup.com/search/?q='' @ q)"

definition techpowerup_try :: "network \<Rightarrow> string \<Rightarrow> state \<Rightarrow> (error + json) \<times> state" where
  "techpowerup_try net gpu_name s =
     (let search_url = techpowerup_search_url gpu_name
      in case http_get net search_url s of
           (Inl e, s1) \<Rightarrow> (Inl e, s1)
         | (Inr r, s1) \<Rightarrow>
             (let href = first_href ''/gpu-specs/'' (parsed r) in
              if no_href href then wikipedia_summary net gpu_name s1
              else
                (let h = href_of href;
                     href' = (if startswith h ''http'' then h else ''https://www.techpowerup.com'' @ h)
                 in case http_get net href' s1 of
                      (Inl e, s2) \<Rightarrow> (Inl e, s2)
                    | (Inr pr, s2) \<Rightarrow>
                        (Inr (spec_result ''techpowerup'' href' (techpowerup_fields (parsed pr) gpu_name)), s2))))"

definition techpowerup_fetch :: "network \<Rightarrow> string \<Rightarrow> fetch_fn" where
  "techpowerup_fetch net gpu_name s =
     (case techpowerup_try net gpu_name s of
        (Inl e, s') \<Rightarrow> wikipedia_summary net gpu_name s'
      | (Inr d, s') \<Rightarrow> (Inr d, s'))"

text \<open>\<^verbatim>\<open>_techpowerup_gpu_specs\<close> (lines 282-310).\<close>

definition techpowerup_gpu_specs :: "network \<Rightarrow> string \<Rightarrow> state \<Rightarrow> (error + json) \<times> state" where
  "techpowerup_gpu_specs net gpu_name s =
     cache_or_fetch_json (''tpu:'' @ gpu_name) (techpowerup_fetch net gpu_name) s"

subsection \<open>Reports and the orchestrator\<close>

text \<open>
  The dataclasses, with the fields online enrichment reads or writes; the other
  fields of \<^verbatim>\<open>CPUInfo\<close>, \<^verbatim>\<open>GPUInfo\<close> and \<^verbatim>\<open>Report\<close> play no part in it. A field
  of \<^verbatim>\<open>OnlineSpec\<close> holds whatever value the constructor is given.
\<close>

record CPUInfo =
  name :: string
  manufacturer :: string

record GPUInfo =
  name :: string

record OnlineSpec =
  source :: json
  official_url :: json
  fields' :: json

record Report =
  cpu :: "CPUInfo option"
  gpus :: "GPUInfo list"
  online :: "string \<rightharpoonup> OnlineSpec"

record HardwareReporter =
  timeout :: int
  max_workers :: int

text \<open>
  \<^verbatim>\<open>OnlineSpec(**v)\<close>: \<open>v\<close> must be a mapping whose keys are field names of the
  dataclass, otherwise the call raises \<^verbatim>\<open>TypeError\<close>; a field that is not given
  takes its default.
\<close>

definition OnlineSpec_of :: "json \<Rightarrow> error + OnlineSpec" where
  "OnlineSpec_of v =
     (case v of
        JObj kvs \<Rightarrow>
          if set (map fst kvs) \<subseteq> {''source'', ''official_url'', ''fields''} then
            Inr \<lparr>source = (case map_of kvs ''source'' of None \<Rightarrow> JStr [] | Some x \<Rightarrow> x),
                 official_url = (case map_of kvs ''official_url'' of None \<Rightarrow> JStr [] | Some x \<Rightarrow> x),
                 fields' = (case map_of kvs ''fields'' of None \<Rightarrow> JObj [] | Some x \<Rightarrow> x)\<rparr>
          else Inl TypeError
      | _ \<Rightarrow> Inl TypeError)"

text \<open>A submitted task: run in a state, it raises or returns a key and a result.\<close>

type_synonym future = "state \<Rightarrow> (error + string \<times> json) \<times> state"

datatype resolver = IntelArk | Wikipedia | TechPowerUp

definition resolve :: "network \<Rightarrow> resolver \<Rightarrow> string \<Rightarrow> state \<Rightarrow> (error + json) \<times> state" where
  "resolve net r nm s =
     (case r of
        IntelArk \<Rightarrow> intel_ark_specs net nm s
      | Wikipedia \<Rightarrow> wikipedia_summary net nm s
      | TechPowerUp \<Rightarrow> techpowerup_gpu_specs net nm s)"

text \<open>The lambdas of lines 454, 456 and 461: the key paired with the resolver's result.\<close>

definition lookup_task :: "network \<Rightarrow> string \<times> resolver \<times> string \<Rightarrow> future" where
  "lookup_task net t s =
     (case resolve net (fst (snd t)) (snd (snd t)) s of
        (Inl e, s') \<Rightarrow> (Inl e, s')
      | (Inr v, s') \<Rightarrow> (Inr (fst t, v), s'))"

text \<open>Lines 451-456: the task of the CPU, as key, resolver and name.\<close>

definition cpu_tasks :: "Report \<Rightarrow> (string \<times> resolver \<times> string) list" where
  "cpu_tasks rep =
     (case cpu rep of
        None \<Rightarrow> []
      | Some c \<Rightarrow>
          if CPUInfo.name c = [] then []
          else if contains (lower (manufacturer c)) ''intel''
                  \<or> startswith (lower (CPUInfo.name c)) ''intel ''
               then [(''cpu'', IntelArk, CPUInfo.name c)]
               else [(''cpu'', Wikipedia, CPUInfo.name c)])"

text \<open>Lines 459-461: the tasks of the GPUs, from \<^verbatim>\<open>enumerate(rep.gpus)\<close>.\<close>

fun gpu_tasks :: "(nat \<times> GPUInfo) list \<Rightarrow> (string \<times> resolver \<times> string) list" where
  "gpu_tasks [] = []"
| "gpu_tasks ((i, gpu) # igs) =
     (if GPUInfo.name gpu = [] then gpu_tasks igs
      else (''gpu'' @ str_nat i, TechPowerUp, GPUInfo.name gpu) # gpu_tasks igs)"

definition submitted :: "Report \<Rightarrow> (string \<times> resolver \<times> string) list" where
  "submitted rep = cpu_tasks rep @ gpu_tasks (enumerate 0 (gpus rep))"

text \<open>
  The pool runs each submitted task once. The model runs the tasks one after the
  other, in an order the pool chooses: \<open>sched\<close> picks, at each step, which of the
  tasks not yet run comes next, so every order of the tasks is possible; steps of
  two tasks are not interleaved.
\<close>

function completion_order :: "nat list \<Rightarrow> 'a list \<Rightarrow> 'a list" where
  "completion_order sched [] = []"
| "completion_order [] (t # ts) = t # ts"
| "completion_order (n # sched) (t # ts) =
     (let i = n mod length (t # ts) in
      (t # ts) ! i # completion_order sched (take i (t # ts) @ drop (Suc i) (t # ts)))"
  by pat_completeness auto
termination
  by (relation "measure (\<lambda>(sched, ts). length ts)") auto

fun run_futures :: "future list \<Rightarrow> state \<Rightarrow> (error + string \<times> json) list \<times> state" where
  "run_futures [] s = ([], s)"
| "run_futures (t # ts) s =
     (case t s of (r, s1) \<Rightarrow> (case run_futures ts s1 of (rs, s2) \<Rightarrow> (r # rs, s2)))"

text \<open>Lines 464-469: the loop over the completed futures; \<^verbatim>\<open>f.result()\<close> raises what
  the task raised, and every \<^verbatim>\<open>Exception\<close> of the loop body is skipped.\<close>

fun collect :: "(error + string \<times> json) list \<Rightarrow> (string \<rightharpoonup> OnlineSpec) \<Rightarrow> (string \<rightharpoonup> OnlineSpec)" where
  "collect [] m = m"
| "collect (Inl e # rs) m = collect rs m"
| "collect (Inr (k, v) # rs) m =
     (case OnlineSpec_of v of
        Inl e \<Rightarrow> collect rs m
      | Inr spec \<Rightarrow> collect rs (m(k \<mapsto> spec)))"

text \<open>
  Lines 448-471 for any list of futures: \<^verbatim>\<open>ThreadPoolExecutor\<close> raises
  \<^verbatim>\<open>ValueError\<close> when \<^verbatim>\<open>max_workers\<close> is not positive; otherwise the futures run and
  their results are collected into \<^verbatim>\<open>rep.online\<close>.
\<close>

definition run_pool ::
  "HardwareReporter \<Rightarrow> nat list \<Rightarrow> future list \<Rightarrow> Report \<Rightarrow> state \<Rightarrow> (error + Report) \<times> state" where
  "run_pool self sched futures rep s =
     (if max_workers self \<le> 0 then (Inl ValueError, s)
      else
        (case run_futures (completion_order sched futures) s of
           (results, s') \<Rightarrow> (Inr (rep\<lparr>online := collect results (online rep)\<rparr>), s')))"

text \<open>\<^verbatim>\<open>enrich_online\<close> (lines 443-471).\<close>

definition enrich_online ::
  "network \<Rightarrow> nat list \<Rightarrow> HardwareReporter \<Rightarrow> Report \<Rightarrow> bool \<Rightarrow> state \<Rightarrow> (error + Report) \<times> state" where
  "enrich_online net sched self rep online' s =
     (if \<not> online' then (Inr rep, s)
      else run_pool self sched (map (lookup_task net) (submitted rep)) rep s)"

subsection \<open>The entry point\<close>

text \<open>
  The command-line arguments \<^verbatim>\<open>main\<close> passes on, and what the WMI enumeration of
  \<^verbatim>\<open>collect_local\<close> stores for the CPU and the GPUs; \<^verbatim>\<open>collect_local\<close> never
  touches \<^verbatim>\<open>rep.online\<close>, which keeps its default, the empty dict.
\<close>

record args =
  no_online :: bool
  arg_timeout :: int
  arg_max_workers :: int
  refresh_cache :: bool

record inventory =
  wmi_cpu :: "CPUInfo option"
  wmi_gpus :: "GPUInfo list"

definition collect_local :: "inventory \<Rightarrow> Report" where
  "collect_local hw = \<lparr>cpu = wmi_cpu hw, gpus = wmi_gpus hw, online = Map.empty\<rparr>"

text \<open>\<^verbatim>\<open>CACHE.invalidate()\<close> (line 684).\<close>

definition invalidate_cache :: "state \<Rightarrow> (error + unit) \<times> state" where
  "invalidate_cache s =
     (case CACHE s of
        None \<Rightarrow> (Inl NameError, s)
      | Some c \<Rightarrow> (Inr (), s\<lparr>CACHE := Some (cache_invalidate c)\<rparr>))"

text \<open>\<^verbatim>\<open>main\<close> (lines 683-692), up to the report it renders; an exception it does
  not catch ends the program.\<close>

definition main :: "network \<Rightarrow> nat list \<Rightarrow> args \<Rightarrow> inventory \<Rightarrow> state \<Rightarrow> (error + Report) \<times> state" where
  "main net sched a hw s =
     (case (if refresh_cache a then invalidate_cache s else (Inr (), s)) of
        (Inl e, s1) \<Rightarrow> (Inl e, s1)
      | (Inr u, s1) \<Rightarrow>
          (let reporter = \<lparr>timeout = arg_timeout a, max_workers = arg_max_workers a\<rparr>;
               rep = collect_local hw
           in enrich_online net sched reporter rep (\<not> no_online a) s1))"

subsection \<open>Identifiers of the components\<close>

text \<open>
  The identifier of a component of the report: \<^verbatim>\<open>cpu\<close> for the CPU and
  \<^verbatim>\<open>gpu\<close> followed by its index for a GPU.
\<close>

definition component_ids :: "Report \<Rightarrow> string list" where
  "component_ids rep =
     (case cpu rep of None \<Rightarrow> [] | Some c \<Rightarrow> [''cpu''])
     @ map (\<lambda>i. ''gpu'' @ str_nat i) [0..<length (gpus rep)]"

subsection \<open>Concrete inputs\<close>

text \<open>A network on which every request fails.\<close>

definition net_down :: network where "net_down = (\<lambda>n url. None)"

text \<open>States where \<^verbatim>\<open>CACHE\<close> is bound: an empty store, and a store that holds the
  result of an earlier lookup of a GPU.\<close>

definition cold_state :: state where
  "cold_state = \<lparr>CACHE = Some Map.empty, requests = []\<rparr>"

definition gpu_doc :: json where
  "gpu_doc = JObj [(''source'', JStr ''techpowerup''),
     (''official_url'', JStr ''https://www.techpowerup.com/gpu-specs/geforce.html''),
     (''fields'', JObj [(''TDP'', JStr ''250 W'')])]"

definition warm_state :: state where
  "warm_state = \<lparr>CACHE = Some [''tpu:GeForce'' \<mapsto> gpu_doc], requests = []\<rparr>"

text \<open>Reports before enrichment, and the \<^verbatim>\<open>OnlineSpec\<close> with every field at its default.\<close>

definition no_report :: Report where
  "no_report = \<lparr>cpu = None, gpus = [], online = Map.empty\<rparr>"

definition two_components :: Report where
  "two_components =
     \<lparr>cpu = Some \<lparr>CPUInfo.name = ''Intel Core i7'', manufacturer = ''GenuineIntel''\<rparr>,
      gpus = [\<lparr>GPUInfo.name = ''GeForce''\<rparr>], online = Map.empty\<rparr>"

definition empty_spec :: OnlineSpec where
  "empty_spec = \<lparr>source = JStr [], official_url = JStr [], fields' = JObj []\<rparr>"

text \<open>
  The two documents of a successful lookup by the fallback resolver, and a network
  that answers the first request with the search result and the second with the
  extract; the result the resolver builds from them.
\<close>

definition search_json :: json where
  "search_json = JObj [(''query'', JObj [(''search'', JArr [JObj [(''pageid'', JInt 42)]])])]"

definition extract_json :: json where
  "extract_json = JObj [(''query'', JObj [(''pages'',
     JObj [(''42'', JObj [(''extract'', JStr ''A graphics card.'')])])])]"

definition blank_page :: soup where
  "blank_page = \<lparr>anchors = [], dts = [], rows = [], title = None\<rparr>"

definition json_response :: "json \<Rightarrow> response" where
  "json_response j = \<lparr>status_code = 200, json_body = Some j, parsed = blank_page\<rparr>"

definition wiki_net :: network where
  "wiki_net = (\<lambda>n url. if n = 0 then Some (json_response search_json)
                         else if n = 1 then Some (json_response extract_json) else None)"

definition wiki_doc :: json where
  "wiki_doc = JObj [(''source'', JStr ''wikipedia''),
     (''official_url'', JStr ''https://en.wikipedia.org/?curid=42''),
     (''fields'', JObj [(''summary'', JStr ''A graphics card.'')])]"

subsection \<open>The shape of a result of the fallback resolver\<close>

text \<open>
  A summary cut to length: a string, or a list, of at most 1200 items. A result of
  a successful fallback lookup: the three keys in their order, the source tag
  \<^verbatim>\<open>wikipedia\<close>, and as fields one entry \<^verbatim>\<open>summary\<close> that is cut to length. A cache
  store is in order for a title when what it holds under the fallback resolver's key
  for that title, if it is a value \<^verbatim>\<open>if cached:\<close> accepts, is such a result.
\<close>

fun summary_bounded :: "json \<Rightarrow> bool" where
  "summary_bounded (JStr txt) = (length txt \<le> 1200)"
| "summary_bounded (JArr xs) = (length xs \<le> 1200)"
| "summary_bounded _ = False"

definition fallback_success :: "json \<Rightarrow> bool" where
  "fallback_success d =
     (case d of
        JObj kvs \<Rightarrow>
          map fst kvs = [''source'', ''official_url'', ''fields'']
          \<and> map_of kvs ''source'' = Some (JStr ''wikipedia'')
          \<and> (case map_of kvs ''fields'' of
               Some (JObj fs) \<Rightarrow> map fst fs = [''summary''] \<and> list_all summary_bounded (map snd fs)
             | _ \<Rightarrow> False)
      | _ \<Rightarrow> False)"

definition wikipedia_entry_ok :: "cache_store \<Rightarrow> string \<Rightarrow> bool" where
  "wikipedia_entry_ok c title' =
     (case c (''wikipedia:'' @ title') of
        None \<Rightarrow> True
      | Some d \<Rightarrow> truthy d \<longrightarrow> fallback_success d)"

text \<open>A successful lookup whose extract is longer than 1200 characters.\<close>

definition long_extract_json :: json where
  "long_extract_json = JObj [(''query'', JObj [(''pages'',
     JObj [(''42'', JObj [(''extract'', JStr (replicate 1300 CHR ''a''))])])])]"

definition long_net :: network where
  "long_net = (\<lambda>n url. if n = 0 then Some (json_response search_json)
                         else if n = 1 then Some (json_response long_extract_json) else None)"

text \<open>
  A search page without any link, on a network where every later request fails, and
  on a network where the two requests of the fallback resolver then succeed.
\<close>

definition page_response :: "soup \<Rightarrow> response" where
  "page_response p = \<lparr>status_code = 200, json_body = None, parsed = p\<rparr>"

definition no_link_net :: network where
  "no_link_net = (\<lambda>n url. if n = 0 then Some (page_response blank_page) else None)"

definition fallback_net :: network where
  "fallback_net = (\<lambda>n url. if n = 0 then Some (page_response blank_page)
                             else if n = 1 then Some (json_response search_json)
                             else if n = 2 then Some (json_response extract_json) else None)"

subsection \<open>The specification's words, for comparison\<close>

text \<open>
  The extraction as section 4.3 of the specification words it, not as the code has
  it: the label and definition sibling pairs, or the table rows when there is no
  such pair; the pairs with a wanted label, or all pairs when none is wanted; and
  with no pair at all the title of the document alone, or nothing when the document
  has no title.
\<close>

definition claimed_fields :: "string list \<Rightarrow> soup \<Rightarrow> (string \<times> string) list" where
  "claimed_fields wanted psoup =
     (let sibling_pairs = dt_specs [] (dts psoup);
          pairs = (if sibling_pairs \<noteq> [] then sibling_pairs else row_specs [] (rows psoup));
          filtered = filter_wanted wanted pairs
      in if filtered \<noteq> [] then filtered
         else if pairs \<noteq> [] then pairs
         else (case title psoup of
                 Some t \<Rightarrow> [(''title'', normspace (Some t))]
               | None \<Rightarrow> []))"

text \<open>
  The choice of the CPU resolver as section 4.5 of the specification words it, not
  as the code has it: the vendor's resolver when the manufacturer or the name has
  the vendor's name in it, in any case of the letters.
\<close>

definition claimed_cpu_resolver :: "string \<Rightarrow> string \<Rightarrow> resolver" where
  "claimed_cpu_resolver manufacturer' name' =
     (if contains (lower manufacturer') ''intel'' \<or> contains (lower name') ''intel''
      then IntelArk else Wikipedia)"

text \<open>A detail page with a sibling pair and a table row, and a report whose CPU has
  the vendor's name in its name only, not followed by a space.\<close>

definition both_shapes_page :: soup where
  "both_shapes_page = \<lparr>anchors = [], dts = [(''TDP'', Some ''250  W'')],
     rows = [[''Bus Interface'', ''PCIe 3.0'']], title = Some ''GeForce''\<rparr>"

definition i7_report :: Report where
  "i7_report = \<lparr>cpu = Some \<lparr>CPUInfo.name = ''Intel(R) Core(TM) i7-9700K'', manufacturer = []\<rparr>,
     gpus = [], online = Map.empty\<rparr>"

text \<open>A report whose CPU and whose first GPU have an empty name, as WMI gives them
  when the property is missing, and whose second GPU has a name.\<close>

definition unnamed_report :: Report where
  "unnamed_report = \<lparr>cpu = Some \<lparr>CPUInfo.name = [], manufacturer = ''GenuineIntel''\<rparr>,
     gpus = [\<lparr>GPUInfo.name = []\<rparr>, \<lparr>GPUInfo.name = ''GeForce''\<rparr>], online = Map.empty\<rparr>"

text \<open>The command line \<^verbatim>\<open>--max-workers 0\<close>, and the inventory of a machine with one
  CPU and one GPU.\<close>

definition zero_workers_args :: args where
  "zero_workers_args =
     \<lparr>no_online = False, arg_timeout = 12, arg_max_workers = 0, refresh_cache = False\<rparr>"

definition two_components_inventory :: inventory where
  "two_components_inventory = \<lparr>wmi_cpu = cpu two_components, wmi_gpus = gpus two_components\<rparr>"

section \<open>Properties\<close>

text \<open>The defining equations a concrete run unfolds.\<close>

lemmas string_defs = quote_def quote_char_def quote_safe_def hex_byte_def hex_digit_def
  lower_def lower_char_def startswith_def endswith_def normspace_def strip_def isspace_def
  py_str_def str_int_def digit_char_def repr_str_def repr_char_def repr_quote_def
  char_of_def bit_Suc_0_iff

lemmas resolver_defs = http_get_def response_json_def cache_get_def cache_set_def
  cache_invalidate_def or_None_def cache_or_fetch_json_def
  search_pageid_def page_extract_def summary_result_def bind_error_def
  wikipedia_url_def wikipedia_url2_def intel_search_url_def techpowerup_search_url_def
  wikipedia_try_def wikipedia_fetch_def wikipedia_summary_def
  href_of_def first_href_def no_href_def filter_wanted_def title_or_def choose_fields_def
  intel_ark_fields_def techpowerup_fields_def fields_json_def spec_result_def
  intel_ark_try_def intel_ark_fetch_def intel_ark_specs_def
  techpowerup_try_def techpowerup_fetch_def techpowerup_gpu_specs_def Let_def

lemmas orchestrator_defs = OnlineSpec_of_def resolve_def lookup_task_def cpu_tasks_def
  submitted_def run_pool_def enrich_online_def collect_local_def invalidate_cache_def main_def

subsection \<open>The pool and the collecting loop\<close>

lemma completion_order_set: "set (completion_order sched ts) = set ts"
proof (induction sched ts rule: completion_order.induct)
  case (3 n sched t ts)
  define xs where "xs = t # ts"
  define i where "i = n mod length xs"
  have i: "i < length xs" by (simp add: i_def xs_def)
  have split: "xs = take i xs @ xs ! i # drop (Suc i) xs"
    using i by (rule id_take_nth_drop)
  have "set (completion_order (n # sched) (t # ts))
      = insert (xs ! i) (set (completion_order sched (take i xs @ drop (Suc i) xs)))"
    by (simp add: xs_def i_def Let_def)
  also have "\<dots> = insert (xs ! i) (set (take i xs @ drop (Suc i) xs))"
    using "3.IH" [of i] by (simp add: xs_def i_def)
  also have "\<dots> = set (take i xs @ xs ! i # drop (Suc i) xs)" by auto
  also have "\<dots> = set xs" using split by simp
  finally show ?case by (simp add: xs_def)
qed simp_all

lemma run_futures_all_raise:
  "\<forall>t \<in> set ts. t s = (Inl e, s) \<Longrightarrow> run_futures ts s = (replicate (length ts) (Inl e), s)"
  by (induction ts) simp_all

lemma collect_all_raised: "collect (replicate n (Inl e)) m = m"
  by (induction n) simp_all

lemma run_pool_all_raise:
  assumes "\<And>t. t \<in> set futures \<Longrightarrow> t s = (Inl e, s)" and "0 < max_workers self"
  shows "run_pool self sched futures rep s = (Inr rep, s)"
proof -
  have "run_futures (completion_order sched futures) s
      = (replicate (length (completion_order sched futures)) (Inl e), s)"
    by (rule run_futures_all_raise) (simp add: completion_order_set assms(1))
  then show ?thesis using assms(2) by (simp add: run_pool_def collect_all_raised)
qed

subsection \<open>The module as it is: \<^verbatim>\<open>CACHE\<close> is not defined\<close>

lemma cache_unbound: "CACHE s = None \<Longrightarrow> cache_or_fetch_json key fetch_fn s = (Inl NameError, s)"
  by (simp add: cache_or_fetch_json_def)

lemma resolve_unbound: "CACHE s = None \<Longrightarrow> resolve net r nm s = (Inl NameError, s)"
  by (cases r) (simp_all add: resolve_def intel_ark_specs_def wikipedia_summary_def
      techpowerup_gpu_specs_def cache_unbound)

lemma lookup_task_unbound: "CACHE s = None \<Longrightarrow> lookup_task net t s = (Inl NameError, s)"
  by (simp add: lookup_task_def resolve_unbound)

lemma enrich_online_unbound:
  assumes "CACHE s = None" and "0 < max_workers self"
  shows "enrich_online net sched self rep True s = (Inr rep, s)"
  unfolding enrich_online_def using assms
  by (auto intro!: run_pool_all_raise [where e = NameError] simp: lookup_task_unbound)

lemma main_refresh_unbound:
  "CACHE s = None \<Longrightarrow> refresh_cache a \<Longrightarrow> main net sched a hw s = (Inl NameError, s)"
  by (simp add: main_def invalidate_cache_def)

lemma enrich_online_no_pool:
  "max_workers self \<le> 0 \<Longrightarrow> enrich_online net sched self rep True s = (Inl ValueError, s)"
  by (simp add: enrich_online_def run_pool_def)

text \<open>
  Claim C10, as the code has it. The module never binds the global \<^verbatim>\<open>CACHE\<close>. In a
  state where the name is unbound, as in the module's own state, the cache layer
  raises \<^verbatim>\<open>NameError\<close> before it calls the fetch function, so each of the three
  resolvers and every lookup task raises \<^verbatim>\<open>NameError\<close> without a request. With a
  positive \<^verbatim>\<open>max_workers\<close> the loop over the futures swallows every one of them and
  \<^verbatim>\<open>enrich_online\<close> returns the report as it was, so that \<^verbatim>\<open>main\<close> ends with the
  report of \<^verbatim>\<open>collect_local\<close>, whose \<^verbatim>\<open>online\<close> mapping is empty. With a
  \<^verbatim>\<open>max_workers\<close> that is not positive the pool's constructor raises \<^verbatim>\<open>ValueError\<close>
  before any task is submitted, \<^verbatim>\<open>enrich_online\<close> returns no report and neither does
  \<^verbatim>\<open>main\<close>, which does not catch it. Without the online flag \<^verbatim>\<open>enrich_online\<close>
  returns the report whatever the pool size. With the cache-refresh flag \<^verbatim>\<open>main\<close>
  ends with a \<^verbatim>\<open>NameError\<close> nothing catches.
\<close>

theorem CACHE_unbound_NameError:
  assumes "CACHE s = None"
  shows "CACHE module_state = None
      \<and> cache_or_fetch_json key fetch_fn s = (Inl NameError, s)
      \<and> wikipedia_summary net nm s = (Inl NameError, s)
      \<and> intel_ark_specs net nm s = (Inl NameError, s)
      \<and> techpowerup_gpu_specs net nm s = (Inl NameError, s)
      \<and> lookup_task net t s = (Inl NameError, s)
      \<and> (0 < max_workers self \<longrightarrow> enrich_online net sched self rep True s = (Inr rep, s))
      \<and> (0 < arg_max_workers a \<and> \<not> no_online a \<and> \<not> refresh_cache a \<longrightarrow>
            main net sched a hw s = (Inr (collect_local hw), s)
            \<and> online (collect_local hw) = Map.empty)
      \<and> (refresh_cache a \<longrightarrow> main net sched a hw s = (Inl NameError, s))
      \<and> (max_workers self \<le> 0 \<longrightarrow>
            enrich_online net sched self rep True s = (Inl ValueError, s))
      \<and> (arg_max_workers a \<le> 0 \<and> \<not> no_online a \<and> \<not> refresh_cache a \<longrightarrow>
            main net sched a hw s = (Inl ValueError, s))
      \<and> enrich_online net sched self rep False s = (Inr rep, s)
      \<and> (no_online a \<and> \<not> refresh_cache a \<longrightarrow>
            main net sched a hw s = (Inr (collect_local hw), s))"
proof -
  have r: "resolve net r nm s = (Inl NameError, s)" for r
    using assms by (rule resolve_unbound)
  have "wikipedia_summary net nm s = (Inl NameError, s)"
    using r [of Wikipedia] by (simp add: resolve_def)
  moreover have "intel_ark_specs net nm s = (Inl NameError, s)"
    using r [of IntelArk] by (simp add: resolve_def)
  moreover have "techpowerup_gpu_specs net nm s = (Inl NameError, s)"
    using r [of TechPowerUp] by (simp add: resolve_def)
  moreover have "0 < arg_max_workers a \<and> \<not> no_online a \<and> \<not> refresh_cache a \<longrightarrow>
      main net sched a hw s = (Inr (collect_local hw), s)"
    using assms by (simp add: main_def enrich_online_unbound)
  moreover have "arg_max_workers a \<le> 0 \<and> \<not> no_online a \<and> \<not> refresh_cache a \<longrightarrow>
      main net sched a hw s = (Inl ValueError, s)"
    by (simp add: main_def enrich_online_no_pool)
  moreover have "enrich_online net sched self rep False s = (Inr rep, s)"
    by (simp add: enrich_online_def)
  moreover have "no_online a \<and> \<not> refresh_cache a \<longrightarrow>
      main net sched a hw s = (Inr (collect_local hw), s)"
    by (simp add: main_def enrich_online_def)
  ultimately show ?thesis
    using assms
    by (simp add: module_state_def cache_unbound lookup_task_unbound enrich_online_unbound
        main_refresh_unbound enrich_online_no_pool collect_local_def)
qed

theorem CACHE_unbound_NameError_witness:
  "CACHE module_state = None
   \<and> intel_ark_specs (\<lambda>n url. None) ''Intel Core i7'' module_state = (Inl NameError, module_state)
   \<and> wikipedia_summary (\<lambda>n url. None) ''Intel Core i7'' module_state = (Inl NameError, module_state)
   \<and> (0::int) < 4
   \<and> enrich_online (\<lambda>n url. None) [1] \<lparr>timeout = 12, max_workers = 4\<rparr>
        \<lparr>cpu = Some \<lparr>CPUInfo.name = ''Intel Core i7'', manufacturer = ''GenuineIntel''\<rparr>,
         gpus = [\<lparr>GPUInfo.name = ''GeForce''\<rparr>], online = Map.empty\<rparr> True module_state
      = (Inr \<lparr>cpu = Some \<lparr>CPUInfo.name = ''Intel Core i7'', manufacturer = ''GenuineIntel''\<rparr>,
         gpus = [\<lparr>GPUInfo.name = ''GeForce''\<rparr>], online = Map.empty\<rparr>, module_state)
   \<and> main (\<lambda>n url. None) [1]
        \<lparr>no_online = False, arg_timeout = 12, arg_max_workers = 4, refresh_cache = False\<rparr>
        \<lparr>wmi_cpu = Some \<lparr>CPUInfo.name = ''Intel Core i7'', manufacturer = ''GenuineIntel''\<rparr>,
         wmi_gpus = [\<lparr>GPUInfo.name = ''GeForce''\<rparr>]\<rparr> module_state
      = (Inr \<lparr>cpu = Some \<lparr>CPUInfo.name = ''Intel Core i7'', manufacturer = ''GenuineIntel''\<rparr>,
         gpus = [\<lparr>GPUInfo.name = ''GeForce''\<rparr>], online = Map.empty\<rparr>, module_state)
   \<and> main (\<lambda>n url. None) [1]
        \<lparr>no_online = False, arg_timeout = 12, arg_max_workers = 4, refresh_cache = True\<rparr>
        \<lparr>wmi_cpu = Some \<lparr>CPUInfo.name = ''Intel Core i7'', manufacturer = ''GenuineIntel''\<rparr>,
         wmi_gpus = [\<lparr>GPUInfo.name = ''GeForce''\<rparr>]\<rparr> module_state
      = (Inl NameError, module_state)
   \<and> (0::int) \<le> 0
   \<and> enrich_online (\<lambda>n url. None) [1] \<lparr>timeout = 12, max_workers = 0\<rparr>
        \<lparr>cpu = Some \<lparr>CPUInfo.name = ''Intel Core i7'', manufacturer = ''GenuineIntel''\<rparr>,
         gpus = [\<lparr>GPUInfo.name = ''GeForce''\<rparr>], online = Map.empty\<rparr> True module_state
      = (Inl ValueError, module_state)
   \<and> main (\<lambda>n url. None) [1]
        \<lparr>no_online = False, arg_timeout = 12, arg_max_workers = 0, refresh_cache = False\<rparr>
        \<lparr>wmi_cpu = Some \<lparr>CPUInfo.name = ''Intel Core i7'', manufacturer = ''GenuineIntel''\<rparr>,
         wmi_gpus = [\<lparr>GPUInfo.name = ''GeForce''\<rparr>]\<rparr> module_state
      = (Inl ValueError, module_state)
   \<and> main (\<lambda>n url. None) [1]
        \<lparr>no_online = True, arg_timeout = 12, arg_max_workers = 0, refresh_cache = False\<rparr>
        \<lparr>wmi_cpu = Some \<lparr>CPUInfo.name = ''Intel Core i7'', manufacturer = ''GenuineIntel''\<rparr>,
         wmi_gpus = [\<lparr>GPUInfo.name = ''GeForce''\<rparr>]\<rparr> module_state
      = (Inr \<lparr>cpu = Some \<lparr>CPUInfo.name = ''Intel Core i7'', manufacturer = ''GenuineIntel''\<rparr>,
         gpus = [\<lparr>GPUInfo.name = ''GeForce''\<rparr>], online = Map.empty\<rparr>, module_state)"
proof -
  have unbound: "CACHE module_state = None" by (simp add: module_state_def)
  note z = CACHE_unbound_NameError [OF unbound,
      where net = "\<lambda>n url. None" and nm = "''Intel Core i7''" and sched = "[1]"
        and self = "\<lparr>timeout = 12, max_workers = 0\<rparr>"
        and rep = "\<lparr>cpu = Some \<lparr>CPUInfo.name = ''Intel Core i7'', manufacturer = ''GenuineIntel''\<rparr>,
         gpus = [\<lparr>GPUInfo.name = ''GeForce''\<rparr>], online = Map.empty\<rparr>"
        and hw = "\<lparr>wmi_cpu = Some \<lparr>CPUInfo.name = ''Intel Core i7'', manufacturer = ''GenuineIntel''\<rparr>,
         wmi_gpus = [\<lparr>GPUInfo.name = ''GeForce''\<rparr>]\<rparr>"]
  note a = CACHE_unbound_NameError [OF unbound,
      where net = "\<lambda>n url. None" and nm = "''Intel Core i7''" and sched = "[1]"
        and self = "\<lparr>timeout = 12, max_workers = 4\<rparr>"
        and rep = "\<lparr>cpu = Some \<lparr>CPUInfo.name = ''Intel Core i7'', manufacturer = ''GenuineIntel''\<rparr>,
         gpus = [\<lparr>GPUInfo.name = ''GeForce''\<rparr>], online = Map.empty\<rparr>"
        and hw = "\<lparr>wmi_cpu = Some \<lparr>CPUInfo.name = ''Intel Core i7'', manufacturer = ''GenuineIntel''\<rparr>,
         wmi_gpus = [\<lparr>GPUInfo.name = ''GeForce''\<rparr>]\<rparr>"]
  from a [where a = "\<lparr>no_online = False, arg_timeout = 12, arg_max_workers = 4, refresh_cache = False\<rparr>"]
       a [where a = "\<lparr>no_online = False, arg_timeout = 12, arg_max_workers = 4, refresh_cache = True\<rparr>"]
       z [where a = "\<lparr>no_online = False, arg_timeout = 12, arg_max_workers = 0, refresh_cache = False\<rparr>"]
       z [where a = "\<lparr>no_online = True, arg_timeout = 12, arg_max_workers = 0, refresh_cache = False\<rparr>"]
  show ?thesis by (simp add: collect_local_def)
qed

text \<open>
  The claim as the specification states it fails at \<^verbatim>\<open>--max-workers 0\<close>, a command
  line \<^verbatim>\<open>main\<close> accepts: with \<^verbatim>\<open>CACHE\<close> unbound and the online flag set,
  \<^verbatim>\<open>enrich_online\<close> does not return the report but raises \<^verbatim>\<open>ValueError\<close> from the
  pool's constructor, without a request, and \<^verbatim>\<open>main\<close> ends with that error.
\<close>

theorem zero_workers_raise_ValueError:
  "CACHE module_state = None
   \<and> arg_max_workers zero_workers_args = 0
   \<and> enrich_online net_down [] \<lparr>timeout = 12, max_workers = 0\<rparr> two_components True module_state
       = (Inl ValueError, module_state)
   \<and> enrich_online net_down [] \<lparr>timeout = 12, max_workers = 0\<rparr> two_components True module_state
       \<noteq> (Inr two_components, module_state)
   \<and> main net_down [] zero_workers_args two_components_inventory module_state
       = (Inl ValueError, module_state)"
  by (simp add: enrich_online_def run_pool_def main_def collect_local_def module_state_def
      zero_workers_args_def two_components_inventory_def)

subsection \<open>What the collecting loop records\<close>

lemma collect_untouched: "\<forall>v. Inr (k, v) \<notin> set rs \<Longrightarrow> collect rs m k = m k"
proof (induction rs arbitrary: m)
  case Nil
  then show ?case by simp
next
  case (Cons r rs)
  show ?case
  proof (cases r)
    case (Inl e)
    with Cons show ?thesis by simp
  next
    case (Inr kv)
    obtain k' v' where kv: "kv = (k', v')" by (cases kv)
    with Inr Cons.prems have "k' \<noteq> k" by auto
    with Inr kv Cons show ?thesis by (cases "OnlineSpec_of v'") auto
  qed
qed

lemma collect_recorded:
  "Inr (k, v) \<in> set rs \<Longrightarrow> OnlineSpec_of v = Inr spec \<Longrightarrow> \<forall>v'. Inr (k, v') \<in> set rs \<longrightarrow> v' = v
     \<Longrightarrow> collect rs m k = Some spec"
proof (induction rs arbitrary: m)
  case Nil
  then show ?case by simp
next
  case (Cons r rs)
  show ?case
  proof (cases "Inr (k, v) \<in> set rs")
    case True
    have u: "\<forall>v'. Inr (k, v') \<in> set rs \<longrightarrow> v' = v" using Cons.prems(3) by auto
    have ih: "collect rs m' k = Some spec" for m'
      using Cons.IH [OF True Cons.prems(2) u] .
    show ?thesis
    proof (cases r)
      case (Inl e)
      then show ?thesis by (simp add: ih)
    next
      case (Inr kv)
      obtain k' v' where "kv = (k', v')" by (cases kv)
      with Inr show ?thesis by (cases "OnlineSpec_of v'") (simp_all add: ih)
    qed
  next
    case False
    with Cons.prems(1) have r: "r = Inr (k, v)" by simp
    have "\<forall>v'. Inr (k, v') \<notin> set rs" using False Cons.prems(3) by auto
    then have "collect rs (m(k \<mapsto> spec)) k = (m(k \<mapsto> spec)) k" by (rule collect_untouched)
    with r Cons.prems(2) show ?thesis by simp
  qed
qed

lemma collect_skips_raised: "collect rs m = collect (filter (\<lambda>r. \<not> isl r) rs) m"
proof (induction rs arbitrary: m)
  case Nil
  then show ?case by simp
next
  case (Cons r rs)
  show ?case
  proof (cases r)
    case (Inl e)
    then show ?thesis by (simp add: Cons.IH)
  next
    case (Inr kv)
    obtain k' v' where kv: "kv = (k', v')" by (cases kv)
    show ?thesis
    proof (cases "OnlineSpec_of v'")
      case (Inl e)
      with Inr kv Cons.IH [of m] show ?thesis by simp
    next
      case (Inr spec)
      have "collect (r # rs) m = collect rs (m(k' \<mapsto> spec))"
        using \<open>r = Inr kv\<close> kv Inr by simp
      also have "\<dots> = collect (filter (\<lambda>r. \<not> isl r) rs) (m(k' \<mapsto> spec))"
        by (rule Cons.IH)
      also have "\<dots> = collect (filter (\<lambda>r. \<not> isl r) (r # rs)) m"
        using \<open>r = Inr kv\<close> kv Inr by simp
      finally show ?thesis .
    qed
  qed
qed

lemma run_futures_length: "length (fst (run_futures ts s)) = length ts"
proof (induction ts arbitrary: s)
  case Nil
  then show ?case by simp
next
  case (Cons t ts)
  obtain r0 s1 where t: "t s = (r0, s1)" by (cases "t s")
  obtain rs s2 where rest: "run_futures ts s1 = (rs, s2)" by (cases "run_futures ts s1")
  from Cons.IH [of s1] rest have "length rs = length ts" by simp
  with t rest show ?case by simp
qed

lemma completion_order_length: "length (completion_order sched ts) = length ts"
proof (induction sched ts rule: completion_order.induct)
  case (3 n sched t ts)
  define xs where "xs = t # ts"
  define i where "i = n mod length xs"
  have i: "i < length xs" by (simp add: i_def xs_def)
  have "length (completion_order (n # sched) (t # ts))
      = Suc (length (completion_order sched (take i xs @ drop (Suc i) xs)))"
    by (simp add: xs_def i_def Let_def)
  also have "\<dots> = Suc (length (take i xs @ drop (Suc i) xs))"
    using "3.IH" [of i] by (simp add: xs_def i_def)
  also have "\<dots> = length xs" using i by simp
  finally show ?case by (simp add: xs_def)
qed simp_all

lemma run_futures_result:
  "r \<in> set (fst (run_futures ts s)) \<Longrightarrow> \<exists>t \<in> set ts. \<exists>s0 s1. t s0 = (r, s1)"
proof (induction ts arbitrary: s)
  case Nil
  then show ?case by simp
next
  case (Cons t ts)
  obtain r0 s1 where t: "t s = (r0, s1)" by (cases "t s")
  obtain rs s2 where rest: "run_futures ts s1 = (rs, s2)" by (cases "run_futures ts s1")
  from Cons.prems t rest have "r = r0 \<or> r \<in> set (fst (run_futures ts s1))" by auto
  then show ?case
  proof
    assume "r = r0"
    with t show ?thesis by auto
  next
    assume "r \<in> set (fst (run_futures ts s1))"
    from Cons.IH [OF this] show ?thesis by auto
  qed
qed

lemma lookup_task_key: "lookup_task net t s = (Inr (k, v), s') \<Longrightarrow> k = fst t"
  by (auto simp: lookup_task_def split: prod.splits sum.splits)

lemma collect_dom: "dom (collect rs m) \<subseteq> dom m \<union> {k. \<exists>v. Inr (k, v) \<in> set rs}"
proof
  fix k assume k: "k \<in> dom (collect rs m)"
  show "k \<in> dom m \<union> {k. \<exists>v. Inr (k, v) \<in> set rs}"
  proof (cases "\<exists>v. Inr (k, v) \<in> set rs")
    case True
    then show ?thesis by simp
  next
    case False
    then have "collect rs m k = m k" by (simp add: collect_untouched)
    with k show ?thesis by auto
  qed
qed

text \<open>
  Claim C8. \<^verbatim>\<open>enrich_online\<close> runs the pool on the lookup tasks of the report, and
  for any list of futures, with a pool, the batch always ends with a report; a task
  that raised leaves no trace in it (the report is the one the successful results alone give),
  the entry of a key no task returned is what it was, and a task that returned a
  result for its key, the only result for that key, has that result as its entry,
  whatever the other tasks did.
\<close>

theorem task_failure_is_isolated:
  assumes "0 < max_workers self"
    and "run_futures (completion_order sched futures) s = (results, s')"
  shows "enrich_online net sched self rep True s
           = run_pool self sched (map (lookup_task net) (submitted rep)) rep s
       \<and> (\<exists>rep'. run_pool self sched futures rep s = (Inr rep', s')
           \<and> cpu rep' = cpu rep \<and> gpus rep' = gpus rep
           \<and> online rep' = collect (filter (\<lambda>r. \<not> isl r) results) (online rep)
           \<and> (\<forall>k. (\<forall>v. Inr (k, v) \<notin> set results) \<longrightarrow> online rep' k = online rep k)
           \<and> (\<forall>k v spec. Inr (k, v) \<in> set results \<and> OnlineSpec_of v = Inr spec
                  \<and> (\<forall>v'. Inr (k, v') \<in> set results \<longrightarrow> v' = v)
                \<longrightarrow> online rep' k = Some spec))"
proof -
  define rep' where "rep' = rep\<lparr>online := collect results (online rep)\<rparr>"
  have "run_pool self sched futures rep s = (Inr rep', s')"
    using assms by (simp add: run_pool_def rep'_def)
  moreover have "cpu rep' = cpu rep" "gpus rep' = gpus rep"
    by (simp_all add: rep'_def)
  moreover have "online rep' = collect (filter (\<lambda>r. \<not> isl r) results) (online rep)"
    unfolding rep'_def using collect_skips_raised [of results "online rep"] by simp
  moreover have "online rep' k = online rep k" if "\<forall>v. Inr (k, v) \<notin> set results" for k
    unfolding rep'_def using collect_untouched [OF that] by simp
  moreover have "online rep' k = Some spec"
    if "Inr (k, v) \<in> set results" "OnlineSpec_of v = Inr spec"
      "\<forall>v'. Inr (k, v') \<in> set results \<longrightarrow> v' = v" for k v spec
    unfolding rep'_def using collect_recorded [OF that] by simp
  moreover have "enrich_online net sched self rep True s
           = run_pool self sched (map (lookup_task net) (submitted rep)) rep s"
    by (simp add: enrich_online_def)
  ultimately show ?thesis by blast
qed

theorem task_failure_is_isolated_witness:
  "(0::int) < 4
   \<and> run_futures (completion_order [1]
          [\<lambda>s. (Inl TypeError, s), lookup_task net_down (''gpu1'', TechPowerUp, ''GeForce'')])
        warm_state = ([Inr (''gpu1'', gpu_doc), Inl TypeError], warm_state)
   \<and> (\<exists>rep'. run_pool \<lparr>timeout = 12, max_workers = 4\<rparr> [1]
          [\<lambda>s. (Inl TypeError, s), lookup_task net_down (''gpu1'', TechPowerUp, ''GeForce'')]
          no_report warm_state = (Inr rep', warm_state)
        \<and> online rep' ''gpu0'' = None
        \<and> online rep' ''gpu1'' = Some \<lparr>source = JStr ''techpowerup'',
             official_url = JStr ''https://www.techpowerup.com/gpu-specs/geforce.html'',
             fields' = JObj [(''TDP'', JStr ''250 W'')]\<rparr>)"
proof -
  have pool: "0 < max_workers \<lparr>timeout = 12, max_workers = 4\<rparr>" by simp
  have run: "run_futures (completion_order [1]
          [\<lambda>s. (Inl TypeError, s), lookup_task net_down (''gpu1'', TechPowerUp, ''GeForce'')])
        warm_state = ([Inr (''gpu1'', gpu_doc), Inl TypeError], warm_state)"
    by (simp add: warm_state_def gpu_doc_def lookup_task_def resolve_def
        techpowerup_gpu_specs_def cache_or_fetch_json_def cache_get_def or_None_def Let_def)
  have sp: "OnlineSpec_of gpu_doc = Inr \<lparr>source = JStr ''techpowerup'',
             official_url = JStr ''https://www.techpowerup.com/gpu-specs/geforce.html'',
             fields' = JObj [(''TDP'', JStr ''250 W'')]\<rparr>"
    by (simp add: OnlineSpec_of_def gpu_doc_def)
  from task_failure_is_isolated [OF pool run, where rep = no_report]
  obtain rep' where p: "run_pool \<lparr>timeout = 12, max_workers = 4\<rparr> [1]
          [\<lambda>s. (Inl TypeError, s), lookup_task net_down (''gpu1'', TechPowerUp, ''GeForce'')]
          no_report warm_state = (Inr rep', warm_state)"
    and u: "\<forall>k. (\<forall>v. Inr (k, v) \<notin> set [Inr (''gpu1'', gpu_doc), Inl TypeError])
              \<longrightarrow> online rep' k = online no_report k"
    and rec: "\<forall>k v spec. Inr (k, v) \<in> set [Inr (''gpu1'', gpu_doc), Inl TypeError]
              \<and> OnlineSpec_of v = Inr spec
              \<and> (\<forall>v'. Inr (k, v') \<in> set [Inr (''gpu1'', gpu_doc), Inl TypeError] \<longrightarrow> v' = v)
              \<longrightarrow> online rep' k = Some spec"
    by blast
  from u [THEN spec, of "''gpu0''"] have a: "online rep' ''gpu0'' = None"
    by (simp add: no_report_def)
  from rec [THEN spec, THEN spec, THEN spec, of "''gpu1''" gpu_doc] sp
  have b: "online rep' ''gpu1'' = Some \<lparr>source = JStr ''techpowerup'',
             official_url = JStr ''https://www.techpowerup.com/gpu-specs/geforce.html'',
             fields' = JObj [(''TDP'', JStr ''250 W'')]\<rparr>"
    by simp
  from run p a b show ?thesis by auto
qed

subsection \<open>The keys of the report\<close>

lemma of_char_digit_char: "d < 10 \<Longrightarrow> (of_char (digit_char d) :: nat) = 48 + d"
  by (simp add: digit_char_def)

lemma digit_char_inj: "d < 10 \<Longrightarrow> d' < 10 \<Longrightarrow> digit_char d = digit_char d' \<Longrightarrow> d = d'"
proof -
  assume a: "d < 10" "d' < 10" "digit_char d = digit_char d'"
  from a(3) have "(of_char (digit_char d) :: nat) = of_char (digit_char d')" by simp
  then have "48 + d = 48 + d'"
    unfolding of_char_digit_char [OF a(1)] of_char_digit_char [OF a(2)] .
  then show ?thesis by simp
qed

lemma str_nat_small: "n < 10 \<Longrightarrow> str_nat n = [digit_char n]"
  by (simp add: str_nat.simps)

lemma str_nat_big: "\<not> n < 10 \<Longrightarrow> str_nat n = str_nat (n div 10) @ [digit_char (n mod 10)]"
  by (subst str_nat.simps) simp

lemma str_nat_not_Nil: "str_nat n \<noteq> []"
  by (cases "n < 10") (simp_all add: str_nat_small str_nat_big)

lemma str_nat_inj: "str_nat n = str_nat m \<Longrightarrow> n = m"
proof (induction n arbitrary: m rule: str_nat.induct)
  case (1 n)
  show ?case
  proof (cases "n < 10")
    case True
    show ?thesis
    proof (cases "m < 10")
      case m: True
      with True "1.prems" show ?thesis
        by (auto simp: str_nat_small dest: digit_char_inj)
    next
      case m: False
      with True "1.prems" str_nat_not_Nil [of "m div 10"] show ?thesis
        by (simp add: str_nat_small str_nat_big)
    qed
  next
    case False
    show ?thesis
    proof (cases "m < 10")
      case m: True
      with False "1.prems" str_nat_not_Nil [of "n div 10"] show ?thesis
        by (simp add: str_nat_small str_nat_big)
    next
      case m: False
      with False "1.prems" have eq: "str_nat (n div 10) = str_nat (m div 10)"
        and d: "digit_char (n mod 10) = digit_char (m mod 10)"
        by (simp_all add: str_nat_big)
      from "1.IH" [OF False eq] have "n div 10 = m div 10" .
      moreover from d have "n mod 10 = m mod 10"
        using digit_char_inj [of "n mod 10" "m mod 10"] by simp
      ultimately show ?thesis by (metis div_mult_mod_eq)
    qed
  qed
qed

lemma gpu_key_inj: "inj (\<lambda>i. ''gpu'' @ str_nat i)"
  by (rule injI) (auto dest: str_nat_inj)

lemma gpu_tasks_keys:
  "set (map fst (gpu_tasks (enumerate n gs))) \<subseteq> (\<lambda>i. ''gpu'' @ str_nat i) ` {n..<n + length gs}"
proof (induction gs arbitrary: n)
  case Nil
  then show ?case by simp
next
  case (Cons g gs)
  have "{Suc n..<Suc n + length gs} \<subseteq> {n..<n + length (g # gs)}" by auto
  with Cons.IH [of "Suc n"]
  have "set (map fst (gpu_tasks (enumerate (Suc n) gs)))
      \<subseteq> (\<lambda>i. ''gpu'' @ str_nat i) ` {n..<n + length (g # gs)}" by blast
  moreover have "''gpu'' @ str_nat n \<in> (\<lambda>i. ''gpu'' @ str_nat i) ` {n..<n + length (g # gs)}"
    by auto
  ultimately show ?case by auto
qed

lemma gpu_tasks_distinct: "distinct (map fst (gpu_tasks (enumerate n gs)))"
proof (induction gs arbitrary: n)
  case Nil
  then show ?case by simp
next
  case (Cons g gs)
  have "''gpu'' @ str_nat n \<notin> set (map fst (gpu_tasks (enumerate (Suc n) gs)))"
  proof
    assume "''gpu'' @ str_nat n \<in> set (map fst (gpu_tasks (enumerate (Suc n) gs)))"
    with gpu_tasks_keys [of "Suc n" gs]
    obtain i where "i \<in> {Suc n..<Suc n + length gs}" "''gpu'' @ str_nat n = ''gpu'' @ str_nat i"
      by blast
    then show False by (auto dest: str_nat_inj)
  qed
  with Cons.IH [of "Suc n"] show ?case by simp
qed

lemma cpu_tasks_keys: "set (map fst (cpu_tasks rep)) \<subseteq> (case cpu rep of None \<Rightarrow> {} | Some c \<Rightarrow> {''cpu''})"
  by (cases "cpu rep") (auto simp: cpu_tasks_def)

lemma cpu_key_not_gpu: "''cpu'' \<notin> (\<lambda>i. ''gpu'' @ str_nat i) ` A"
  by auto

lemma submitted_keys: "set (map fst (submitted rep)) \<subseteq> set (component_ids rep)"
proof -
  have "set (map fst (gpu_tasks (enumerate 0 (gpus rep))))
      \<subseteq> (\<lambda>i. ''gpu'' @ str_nat i) ` {0..<length (gpus rep)}"
    using gpu_tasks_keys [of 0 "gpus rep"] by simp
  moreover have "set (map fst (cpu_tasks rep)) \<subseteq> (case cpu rep of None \<Rightarrow> {} | Some c \<Rightarrow> {''cpu''})"
    by (rule cpu_tasks_keys)
  ultimately show ?thesis
    by (auto simp: submitted_def component_ids_def split: option.splits)
qed

lemma submitted_distinct: "distinct (map fst (submitted rep))"
proof -
  have "set (map fst (cpu_tasks rep)) \<subseteq> {''cpu''}"
    using cpu_tasks_keys [of rep] by (cases "cpu rep") auto
  moreover have "''cpu'' \<notin> set (map fst (gpu_tasks (enumerate 0 (gpus rep))))"
    using gpu_tasks_keys [of 0 "gpus rep"] cpu_key_not_gpu by blast
  ultimately have "set (map fst (cpu_tasks rep)) \<inter> set (map fst (gpu_tasks (enumerate 0 (gpus rep)))) = {}"
    by blast
  moreover have "distinct (map fst (cpu_tasks rep))"
    by (cases "cpu rep") (auto simp: cpu_tasks_def)
  ultimately show ?thesis
    by (simp add: submitted_def gpu_tasks_distinct)
qed

lemma component_ids_distinct: "distinct (component_ids rep)"
proof -
  have "distinct (map (\<lambda>i. ''gpu'' @ str_nat i) [0..<length (gpus rep)])"
    by (simp add: distinct_map inj_on_def) (auto dest: str_nat_inj)
  then show ?thesis
    by (auto simp: component_ids_def split: option.splits)
qed

lemma run_pool_keys:
  assumes "run_pool self sched (map (lookup_task net) ts) rep s = (Inr rep', s')"
  shows "dom (online rep') \<subseteq> dom (online rep) \<union> set (map fst ts)"
proof -
  define results where "results = fst (run_futures (completion_order sched (map (lookup_task net) ts)) s)"
  from assms have rep': "online rep' = collect results (online rep)"
    by (auto simp: run_pool_def results_def split: if_splits prod.splits)
  have "k \<in> set (map fst ts)" if "Inr (k, v) \<in> set results" for k v
  proof -
    from that obtain f s0 s1 where f: "f \<in> set (completion_order sched (map (lookup_task net) ts))"
      and r: "f s0 = (Inr (k, v), s1)"
      unfolding results_def by (blast dest: run_futures_result)
    from f obtain t where t: "t \<in> set ts" "f = lookup_task net t"
      by (auto simp: completion_order_set)
    with r have "k = fst t" by (auto dest: lookup_task_key)
    with t show ?thesis by auto
  qed
  with collect_dom [of results "online rep"] show ?thesis
    unfolding rep' by blast
qed

text \<open>
  Claim C9. The keys of the report \<^verbatim>\<open>enrich_online\<close> returns are keys the report
  had before or identifiers of its components; for a report that starts with no
  entry, as the one of \<^verbatim>\<open>collect_local\<close>, they are identifiers of components. The
  identifiers are pairwise distinct and no two submitted tasks have the same key.
\<close>

theorem report_keys_subset:
  assumes "enrich_online net sched self rep online' s = (Inr rep', s')"
  shows "dom (online rep') \<subseteq> dom (online rep) \<union> set (component_ids rep)
       \<and> (online rep = Map.empty \<longrightarrow> dom (online rep') \<subseteq> set (component_ids rep))
       \<and> distinct (component_ids rep)
       \<and> distinct (map fst (submitted rep))"
proof -
  have "dom (online rep') \<subseteq> dom (online rep) \<union> set (component_ids rep)"
  proof (cases online')
    case False
    with assms show ?thesis by (simp add: enrich_online_def)
  next
    case True
    with assms have "run_pool self sched (map (lookup_task net) (submitted rep)) rep s = (Inr rep', s')"
      by (simp add: enrich_online_def)
    from run_pool_keys [OF this] submitted_keys [of rep] show ?thesis by blast
  qed
  then show ?thesis
    by (auto simp: component_ids_distinct submitted_distinct)
qed

theorem report_keys_subset_witness:
  "fst (enrich_online net_down [] \<lparr>timeout = 12, max_workers = 4\<rparr> two_components True cold_state)
     = Inr (two_components\<lparr>online := [''cpu'' \<mapsto> empty_spec, ''gpu0'' \<mapsto> empty_spec]\<rparr>)
   \<and> dom [''cpu'' \<mapsto> empty_spec, ''gpu0'' \<mapsto> empty_spec] \<subseteq> set (component_ids two_components)
   \<and> component_ids two_components = [''cpu'', ''gpu0'']"
proof -
  have run: "fst (enrich_online net_down [] \<lparr>timeout = 12, max_workers = 4\<rparr> two_components True cold_state)
     = Inr (two_components\<lparr>online := [''cpu'' \<mapsto> empty_spec, ''gpu0'' \<mapsto> empty_spec]\<rparr>)"
    by (simp add: orchestrator_defs resolver_defs string_defs net_down_def enumerate_eq_zip
        str_nat.simps two_components_def cold_state_def empty_spec_def Let_def)
  then have "enrich_online net_down [] \<lparr>timeout = 12, max_workers = 4\<rparr> two_components True cold_state
     = (Inr (two_components\<lparr>online := [''cpu'' \<mapsto> empty_spec, ''gpu0'' \<mapsto> empty_spec]\<rparr>),
        snd (enrich_online net_down [] \<lparr>timeout = 12, max_workers = 4\<rparr> two_components True cold_state))"
    by (simp add: prod_eq_iff)
  from report_keys_subset [OF this] run show ?thesis
    by (simp add: two_components_def component_ids_def str_nat.simps digit_char_def
        char_of_def bit_Suc_0_iff)
qed

subsection \<open>The cache layer: what is written and what is served\<close>

lemma cache_layer_hit:
  "CACHE s = Some c \<Longrightarrow> truthy (or_None (c key))
     \<Longrightarrow> cache_or_fetch_json key fetch_fn s = (Inr (or_None (c key)), s)"
  by (simp add: cache_or_fetch_json_def cache_get_def Let_def)

lemma cache_layer_raise:
  "CACHE s = Some c \<Longrightarrow> \<not> truthy (or_None (c key)) \<Longrightarrow> fetch_fn s = (Inl e, s1)
     \<Longrightarrow> cache_or_fetch_json key fetch_fn s = (Inl e, s1)"
  by (simp add: cache_or_fetch_json_def cache_get_def Let_def)

lemma cache_layer_not_dict:
  "CACHE s = Some c \<Longrightarrow> \<not> truthy (or_None (c key)) \<Longrightarrow> fetch_fn s = (Inr d, s1) \<Longrightarrow> \<not> is_dict d
     \<Longrightarrow> cache_or_fetch_json key fetch_fn s = (Inr (JObj []), s1)"
  by (simp add: cache_or_fetch_json_def cache_get_def Let_def)

lemma cache_layer_store:
  "CACHE s = Some c \<Longrightarrow> \<not> truthy (or_None (c key)) \<Longrightarrow> fetch_fn s = (Inr d, s1) \<Longrightarrow> is_dict d
     \<Longrightarrow> CACHE s1 = Some c1
     \<Longrightarrow> cache_or_fetch_json key fetch_fn s = (Inr d, s1\<lparr>CACHE := Some (c1(key \<mapsto> d))\<rparr>)"
  by (simp add: cache_or_fetch_json_def cache_get_def cache_set_def Let_def)

lemma wikipedia_fetch_failed:
  "wikipedia_try net t s = (Inl e, s1) \<Longrightarrow> wikipedia_fetch net t s = (Inr (JObj []), s1)"
  by (simp add: wikipedia_fetch_def)

text \<open>
  Claim C1, as the code has it. With \<^verbatim>\<open>CACHE\<close> bound, a stored value that is true
  (a non-empty mapping) is served and nothing is fetched or written. Otherwise the
  fetch function is called: when it raises, or returns a value that is no mapping,
  nothing is written; when it returns a mapping, that mapping is written under the
  key, whatever it is. So the empty mapping the fallback resolver's fetch returns
  when its \<^verbatim>\<open>try\<close> fails is written too; but a stored empty mapping is not true,
  so it is never served: the next lookup of the key calls the fetch function again.
\<close>

theorem cache_layer_writes_what_fetch_returns:
  assumes "CACHE s = Some c"
  shows "(truthy (or_None (c key)) \<longrightarrow>
            cache_or_fetch_json key fetch_fn s = (Inr (or_None (c key)), s))
       \<and> (\<not> truthy (or_None (c key)) \<longrightarrow>
            (\<forall>e s1. fetch_fn s = (Inl e, s1) \<longrightarrow>
               cache_or_fetch_json key fetch_fn s = (Inl e, s1))
          \<and> (\<forall>d s1. fetch_fn s = (Inr d, s1) \<and> \<not> is_dict d \<longrightarrow>
               cache_or_fetch_json key fetch_fn s = (Inr (JObj []), s1))
          \<and> (\<forall>d s1 c1. fetch_fn s = (Inr d, s1) \<and> is_dict d \<and> CACHE s1 = Some c1 \<longrightarrow>
               cache_or_fetch_json key fetch_fn s = (Inr d, s1\<lparr>CACHE := Some (c1(key \<mapsto> d))\<rparr>)))
       \<and> (\<forall>e s1. wikipedia_try net t s = (Inl e, s1) \<longrightarrow>
            wikipedia_fetch net t s = (Inr (JObj []), s1))
       \<and> \<not> truthy (or_None (Some (JObj [])))"
  using assms
  by (auto simp: cache_layer_hit cache_layer_raise cache_layer_not_dict cache_layer_store
      wikipedia_fetch_failed or_None_def)

theorem cache_layer_writes_what_fetch_returns_witness:
  "CACHE cold_state = Some Map.empty
   \<and> \<not> truthy (or_None (Map.empty ''wikipedia:GeForce''))
   \<and> wikipedia_fetch net_down ''GeForce'' cold_state
       = (Inr (JObj []), cold_state\<lparr>requests := [wikipedia_url ''GeForce'']\<rparr>)
   \<and> is_dict (JObj [])
   \<and> cache_or_fetch_json ''wikipedia:GeForce'' (wikipedia_fetch net_down ''GeForce'') cold_state
       = (Inr (JObj []), cold_state\<lparr>requests := [wikipedia_url ''GeForce''],
            CACHE := Some [''wikipedia:GeForce'' \<mapsto> JObj []]\<rparr>)"
proof -
  have bound: "CACHE cold_state = Some Map.empty" by (simp add: cold_state_def)
  have miss: "\<not> truthy (or_None (Map.empty ''wikipedia:GeForce''))" by (simp add: or_None_def)
  have fetch: "wikipedia_fetch net_down ''GeForce'' cold_state
       = (Inr (JObj []), cold_state\<lparr>requests := [wikipedia_url ''GeForce'']\<rparr>)"
    by (simp add: wikipedia_fetch_def wikipedia_try_def http_get_def net_down_def cold_state_def)
  have bound': "CACHE (cold_state\<lparr>requests := [wikipedia_url ''GeForce'']\<rparr>) = Some Map.empty"
    by (simp add: cold_state_def)
  from cache_layer_writes_what_fetch_returns [OF bound, of "''wikipedia:GeForce''"
      "wikipedia_fetch net_down ''GeForce''"] miss fetch bound'
  show ?thesis by (simp add: cold_state_def)
qed

text \<open>
  The claim as the specification states it fails: with every request failing, the
  \<^verbatim>\<open>try\<close> of the fallback resolver's fetch raises, and after the lookup the store,
  empty before, holds the empty mapping under the key.
\<close>

theorem failed_fetch_is_written:
  "isl (fst (wikipedia_try net_down ''GeForce'' cold_state))
   \<and> CACHE cold_state = Some Map.empty
   \<and> CACHE (snd (wikipedia_summary net_down ''GeForce'' cold_state))
       = Some [''wikipedia:GeForce'' \<mapsto> JObj []]"
  by (simp add: resolver_defs net_down_def cold_state_def)

subsection \<open>Calling a resolver twice\<close>

lemma cache_layer_result_cached:
  assumes "cache_or_fetch_json key fetch_fn s = (Inr d, s1)" and "truthy d"
  shows "\<exists>c1. CACHE s1 = Some c1 \<and> c1 key = Some d"
proof -
  from assms(1) obtain c where c: "CACHE s = Some c"
    by (cases "CACHE s") (auto simp: cache_or_fetch_json_def)
  show ?thesis
  proof (cases "truthy (or_None (c key))")
    case True
    with c assms(1) have "d = or_None (c key)" "s1 = s" by (simp_all add: cache_layer_hit)
    with True c show ?thesis by (cases "c key") (auto simp: or_None_def)
  next
    case False
    obtain r s' where f: "fetch_fn s = (r, s')" by (cases "fetch_fn s")
    show ?thesis
    proof (cases r)
      case (Inl e)
      with c False f assms(1) show ?thesis by (simp add: cache_layer_raise)
    next
      case (Inr d')
      show ?thesis
      proof (cases "is_dict d'")
        case nd: False
        with c False f Inr assms show ?thesis by (auto simp: cache_layer_not_dict)
      next
        case True
        show ?thesis
        proof (cases "CACHE s'")
          case None
          with c False f Inr True assms(1) show ?thesis
            by (simp add: cache_or_fetch_json_def cache_get_def Let_def)
        next
          case (Some c')
          with c False f Inr True assms(1) show ?thesis
            by (auto simp: cache_layer_store)
        qed
      qed
    qed
  qed
qed

lemma cache_layer_second_lookup:
  assumes "cache_or_fetch_json key fetch_fn s = (Inr d, s1)" and "truthy d"
  shows "cache_or_fetch_json key fetch_fn' s1 = (Inr d, s1)"
proof -
  from cache_layer_result_cached [OF assms] obtain c1 where "CACHE s1 = Some c1" "c1 key = Some d"
    by blast
  with assms(2) cache_layer_hit [of s1 c1 key fetch_fn'] show ?thesis by (simp add: or_None_def)
qed

text \<open>
  Claim C3, as the code has it. When a resolver returns a result that is true (a
  non-empty mapping), calling it again with the same name, on any network, returns
  the same result and leaves the state as it is: no request is made.
\<close>

theorem nonempty_result_is_served_again:
  assumes "resolve net r nm s = (Inr d, s1)" and "truthy d"
  shows "resolve net' r nm s1 = (Inr d, s1)
       \<and> requests (snd (resolve net' r nm s1)) = requests s1"
proof -
  have "resolve net' r nm s1 = (Inr d, s1)"
    using assms
    by (cases r)
      (auto simp: resolve_def intel_ark_specs_def wikipedia_summary_def techpowerup_gpu_specs_def
        intro: cache_layer_second_lookup)
  then show ?thesis by simp
qed

theorem nonempty_result_is_served_again_witness:
  "resolve wiki_net Wikipedia ''GeForce'' cold_state
     = (Inr wiki_doc, snd (resolve wiki_net Wikipedia ''GeForce'' cold_state))
   \<and> truthy wiki_doc
   \<and> resolve net_down Wikipedia ''GeForce'' (snd (resolve wiki_net Wikipedia ''GeForce'' cold_state))
     = (Inr wiki_doc, snd (resolve wiki_net Wikipedia ''GeForce'' cold_state))
   \<and> length (requests (snd (resolve wiki_net Wikipedia ''GeForce'' cold_state))) = 2"
proof -
  have "fst (resolve wiki_net Wikipedia ''GeForce'' cold_state) = Inr wiki_doc"
    by (simp add: resolve_def resolver_defs string_defs wiki_net_def cold_state_def
        json_response_def search_json_def extract_json_def wiki_doc_def str_nat.simps)
  then have first: "resolve wiki_net Wikipedia ''GeForce'' cold_state
     = (Inr wiki_doc, snd (resolve wiki_net Wikipedia ''GeForce'' cold_state))"
    by (simp add: prod_eq_iff)
  have t: "truthy wiki_doc" by (simp add: wiki_doc_def)
  have n: "length (requests (snd (resolve wiki_net Wikipedia ''GeForce'' cold_state))) = 2"
    by (simp add: resolve_def resolver_defs string_defs wiki_net_def cold_state_def
        json_response_def search_json_def extract_json_def str_nat.simps)
  from nonempty_result_is_served_again [OF first t, of net_down] first t n
  show ?thesis by simp
qed

text \<open>
  The claim as the specification states it fails for an empty result: with every
  request failing, the first call of the CPU resolver makes two requests and returns
  the empty mapping, and the second call makes two requests more.
\<close>

theorem empty_result_is_fetched_again:
  "fst (resolve net_down IntelArk ''i7'' cold_state) = Inr (JObj [])
   \<and> fst (resolve net_down IntelArk ''i7'' (snd (resolve net_down IntelArk ''i7'' cold_state)))
       = Inr (JObj [])
   \<and> length (requests (snd (resolve net_down IntelArk ''i7'' cold_state))) = 2
   \<and> length (requests (snd (resolve net_down IntelArk ''i7''
        (snd (resolve net_down IntelArk ''i7'' cold_state))))) = 4"
  by (simp add: resolve_def resolver_defs net_down_def cold_state_def)

subsection \<open>The fallback resolver\<close>

lemma fallback_success_iff:
  "fallback_success d \<longleftrightarrow>
     (\<exists>url summary. d = JObj [(''source'', JStr ''wikipedia''), (''official_url'', url),
          (''fields'', JObj [(''summary'', summary)])] \<and> summary_bounded summary)"
proof
  assume a: "fallback_success d"
  then obtain kvs where d: "d = JObj kvs" by (cases d) (simp_all add: fallback_success_def)
  from a d have keys: "map fst kvs = [''source'', ''official_url'', ''fields'']"
    and src: "map_of kvs ''source'' = Some (JStr ''wikipedia'')"
    by (simp_all add: fallback_success_def)
  from keys obtain x y z where kvs: "kvs = [(''source'', x), (''official_url'', y), (''fields'', z)]"
    by (auto simp: map_eq_Cons_conv)
  from src kvs have x: "x = JStr ''wikipedia''" by simp
  from a d kvs obtain fs where z: "z = JObj fs" and fk: "map fst fs = [''summary'']"
    and fb: "list_all summary_bounded (map snd fs)"
    by (cases z) (simp_all add: fallback_success_def)
  from fk obtain v where fs: "fs = [(''summary'', v)]" by (auto simp: map_eq_Cons_conv)
  with fb have "summary_bounded v" by simp
  with d kvs x z fs show "\<exists>url summary. d = JObj [(''source'', JStr ''wikipedia''),
      (''official_url'', url), (''fields'', JObj [(''summary'', summary)])] \<and> summary_bounded summary"
    by blast
next
  assume "\<exists>url summary. d = JObj [(''source'', JStr ''wikipedia''), (''official_url'', url),
          (''fields'', JObj [(''summary'', summary)])] \<and> summary_bounded summary"
  then show "fallback_success d" by (auto simp: fallback_success_def)
qed

lemma http_get_CACHE: "http_get net url s = (r, s1) \<Longrightarrow> CACHE s1 = CACHE s"
  by (auto simp: http_get_def Let_def split: option.splits if_splits)

lemma py_slice_1200_bounded: "py_slice_1200 extract = Inr summary \<Longrightarrow> summary_bounded summary"
  by (cases "extract") auto

lemma wikipedia_try_CACHE: "wikipedia_try net t s = (r, s') \<Longrightarrow> CACHE s' = CACHE s"
  by (auto simp: wikipedia_try_def Let_def split: prod.splits sum.splits if_splits
      dest!: http_get_CACHE)

lemma wikipedia_fetch_CACHE: "wikipedia_fetch net t s = (r, s') \<Longrightarrow> CACHE s' = CACHE s"
  by (auto simp: wikipedia_fetch_def split: prod.splits sum.splits dest: wikipedia_try_CACHE)

lemma wikipedia_fetch_returns: "\<exists>d. fst (wikipedia_fetch net t s) = Inr d"
  by (auto simp: wikipedia_fetch_def split: prod.splits sum.splits)

text \<open>What a successful fetch of the fallback resolver went through.\<close>

lemma wikipedia_try_success:
  assumes "wikipedia_try net t s = (Inr d, s')" and "truthy d"
  shows "\<exists>r s1 j pageid r2 j2 extract summary.
           http_get net (wikipedia_url t) s = (Inr r, s1) \<and> json_body r = Some j
         \<and> search_pageid j = Inr pageid \<and> truthy pageid
         \<and> http_get net (wikipedia_url2 pageid) s1 = (Inr r2, s') \<and> json_body r2 = Some j2
         \<and> page_extract j2 pageid = Inr extract
         \<and> py_slice_1200 extract = Inr summary
         \<and> d = JObj [(''source'', JStr ''wikipedia''),
                     (''official_url'', JStr (''https://en.wikipedia.org/?curid='' @ py_str pageid)),
                     (''fields'', JObj [(''summary'', summary)])]"
proof -
  obtain r0 s1 where g1: "http_get net (wikipedia_url t) s = (r0, s1)"
    by (cases "http_get net (wikipedia_url t) s")
  with assms(1) obtain r where r: "r0 = Inr r"
    by (cases r0) (simp_all add: wikipedia_try_def)
  from assms(1) g1 r obtain pageid where p: "bind_error (response_json r) search_pageid = Inr pageid"
    by (cases "bind_error (response_json r) search_pageid") (simp_all add: wikipedia_try_def)
  then obtain j where j: "json_body r = Some j" "search_pageid j = Inr pageid"
    by (cases "json_body r") (simp_all add: bind_error_def response_json_def)
  from assms g1 r p have tp: "truthy pageid"
    by (cases "truthy pageid") (auto simp: wikipedia_try_def)
  obtain r0' s2 where g2: "http_get net (wikipedia_url2 pageid) s1 = (r0', s2)"
    by (cases "http_get net (wikipedia_url2 pageid) s1")
  with assms(1) g1 r p tp obtain r2 where r2: "r0' = Inr r2"
    by (cases r0') (simp_all add: wikipedia_try_def)
  from assms(1) g1 r p tp g2 r2
  have res: "bind_error (response_json r2) (\<lambda>j2. bind_error (page_extract j2 pageid)
      (\<lambda>extract. summary_result pageid extract)) = Inr d" and s': "s2 = s'"
    by (simp_all add: wikipedia_try_def)
  from res obtain j2 where j2: "json_body r2 = Some j2"
    and res2: "bind_error (page_extract j2 pageid) (\<lambda>extract. summary_result pageid extract) = Inr d"
    by (cases "json_body r2") (simp_all add: bind_error_def response_json_def)
  from res2 obtain ext where e: "page_extract j2 pageid = Inr ext"
    and res3: "summary_result pageid ext = Inr d"
    by (cases "page_extract j2 pageid") (simp_all add: bind_error_def)
  from res3 obtain summary where sm: "py_slice_1200 ext = Inr summary"
    and d: "d = JObj [(''source'', JStr ''wikipedia''),
                     (''official_url'', JStr (''https://en.wikipedia.org/?curid='' @ py_str pageid)),
                     (''fields'', JObj [(''summary'', summary)])]"
    by (cases "py_slice_1200 ext") (auto simp: summary_result_def bind_error_def Let_def)
  from g1 r j tp g2 r2 s' j2 e sm d show ?thesis by blast
qed

lemma wikipedia_fetch_success:
  assumes "wikipedia_fetch net t s = (Inr d, s')" and "truthy d"
  shows "wikipedia_try net t s = (Inr d, s')"
  using assms by (auto simp: wikipedia_fetch_def split: prod.splits sum.splits)

lemma wikipedia_fetch_is_dict: "wikipedia_fetch net t s = (Inr d, s') \<Longrightarrow> is_dict d"
proof (cases "truthy d")
  case True
  assume "wikipedia_fetch net t s = (Inr d, s')"
  from wikipedia_try_success [OF wikipedia_fetch_success [OF this True] True]
  show ?thesis by auto
next
  case False
  assume a: "wikipedia_fetch net t s = (Inr d, s')"
  obtain r0 s0 where t: "wikipedia_try net t s = (r0, s0)" by (cases "wikipedia_try net t s")
  show ?thesis
  proof (cases r0)
    case (Inl e)
    with a t show ?thesis by (auto simp: wikipedia_fetch_def)
  next
    case (Inr d')
    with a t have d': "d' = d" by (simp add: wikipedia_fetch_def)
    with t Inr have tr: "wikipedia_try net t s = (Inr d, s0)" by simp
    then show ?thesis
      by (auto simp: wikipedia_try_def Let_def summary_result_def bind_error_def
          split: prod.splits sum.splits if_splits)
  qed
qed

lemma dict_not_truthy: "is_dict d \<Longrightarrow> \<not> truthy d \<Longrightarrow> d = JObj []"
  by (cases d) auto

lemma fallback_success_is_dict: "fallback_success d \<Longrightarrow> is_dict d"
  by (auto simp: fallback_success_iff)

lemma fallback_success_source:
  "fallback_success d \<Longrightarrow> py_get d ''source'' JNull = Inr (JStr ''wikipedia'')"
  by (auto simp: fallback_success_iff)

lemma wikipedia_fetch_shape:
  assumes "wikipedia_fetch net t s = (Inr d, s')"
  shows "d = JObj [] \<or> fallback_success d"
proof (cases "truthy d")
  case True
  from wikipedia_try_success [OF wikipedia_fetch_success [OF assms True] True]
  show ?thesis by (auto simp: fallback_success_iff dest: py_slice_1200_bounded)
next
  case False
  with wikipedia_fetch_is_dict [OF assms] show ?thesis by (simp add: dict_not_truthy)
qed

text \<open>With \<^verbatim>\<open>CACHE\<close> bound the fallback resolver returns: a stored value that is true,
  or what its fetch returned, which it has then stored.\<close>

lemma wikipedia_summary_bound:
  assumes "CACHE s = Some c"
  shows "(truthy (or_None (c (''wikipedia:'' @ t))) \<and>
            wikipedia_summary net t s = (Inr (or_None (c (''wikipedia:'' @ t))), s))
       \<or> (\<not> truthy (or_None (c (''wikipedia:'' @ t))) \<and>
            (\<exists>d s1. wikipedia_fetch net t s = (Inr d, s1) \<and> CACHE s1 = Some c
               \<and> wikipedia_summary net t s
                   = (Inr d, s1\<lparr>CACHE := Some (c(''wikipedia:'' @ t \<mapsto> d))\<rparr>)))"
proof (cases "truthy (or_None (c (''wikipedia:'' @ t)))")
  case True
  with assms show ?thesis by (simp add: wikipedia_summary_def cache_layer_hit)
next
  case False
  obtain r0 s1 where f: "wikipedia_fetch net t s = (r0, s1)" by (cases "wikipedia_fetch net t s")
  with wikipedia_fetch_returns [of net t s] obtain d where d: "r0 = Inr d" by auto
  from f have c1: "CACHE s1 = Some c" using assms by (simp add: wikipedia_fetch_CACHE)
  from f d have "is_dict d" by (auto dest: wikipedia_fetch_is_dict)
  with assms False f d c1
  have "wikipedia_summary net t s = (Inr d, s1\<lparr>CACHE := Some (c(''wikipedia:'' @ t \<mapsto> d))\<rparr>)"
    by (simp add: wikipedia_summary_def cache_layer_store)
  with False f d c1 show ?thesis by simp
qed

lemma wikipedia_summary_returns:
  assumes "CACHE s = Some c"
  shows "\<exists>d s'. wikipedia_summary net t s = (Inr d, s') \<and> (\<exists>c'. CACHE s' = Some c')"
  using wikipedia_summary_bound [OF assms, of t net] assms by auto

text \<open>
  Claim C6. When the fallback resolver returns a result that is not empty, from a
  state where \<^verbatim>\<open>CACHE\<close> is bound and the store is in order for the title, the result
  has the source tag of the resolver and its fields are exactly one entry, named
  \<^verbatim>\<open>summary\<close>, of at most 1200 items, at most 1200 characters when it is a string.
  When the result was not served from the cache, both requests succeeded and the
  summary is the extract of the second response cut by \<^verbatim>\<open>[:1200]\<close>: the first 1200
  characters of the extract when it is a string.
\<close>

theorem fallback_result_is_one_summary:
  assumes "CACHE s = Some c" and "wikipedia_entry_ok c t"
    and "wikipedia_summary net t s = (Inr d, s')" and "truthy d"
  shows "\<exists>url summary.
           d = JObj [(''source'', JStr ''wikipedia''), (''official_url'', url),
                     (''fields'', JObj [(''summary'', summary)])]
         \<and> summary_bounded summary
         \<and> (\<forall>txt. summary = JStr txt \<longrightarrow> length txt \<le> 1200)
         \<and> (\<not> truthy (or_None (c (''wikipedia:'' @ t))) \<longrightarrow>
              (\<exists>r s1 j pageid r2 s2 j2 extract.
                  http_get net (wikipedia_url t) s = (Inr r, s1) \<and> json_body r = Some j
                \<and> search_pageid j = Inr pageid \<and> truthy pageid
                \<and> http_get net (wikipedia_url2 pageid) s1 = (Inr r2, s2) \<and> json_body r2 = Some j2
                \<and> page_extract j2 pageid = Inr extract
                \<and> py_slice_1200 extract = Inr summary
                \<and> (\<forall>txt. extract = JStr txt \<longrightarrow> summary = JStr (take 1200 txt))
                \<and> url = JStr (''https://en.wikipedia.org/?curid='' @ py_str pageid)))"
proof (cases "truthy (or_None (c (''wikipedia:'' @ t)))")
  case True
  with wikipedia_summary_bound [OF assms(1), of t net] assms(3)
  have d: "d = or_None (c (''wikipedia:'' @ t))" by simp
  with True obtain d0 where "c (''wikipedia:'' @ t) = Some d0" "d = d0"
    by (cases "c (''wikipedia:'' @ t)") (simp_all add: or_None_def)
  with assms(2,4) have "fallback_success d" by (simp add: wikipedia_entry_ok_def)
  then obtain url summary where
    "d = JObj [(''source'', JStr ''wikipedia''), (''official_url'', url),
               (''fields'', JObj [(''summary'', summary)])]" "summary_bounded summary"
    by (auto simp: fallback_success_iff)
  moreover from this(2) have "\<forall>txt. summary = JStr txt \<longrightarrow> length txt \<le> 1200" by auto
  ultimately show ?thesis using True by blast
next
  case False
  with wikipedia_summary_bound [OF assms(1), of t net] assms(3)
  obtain s1 where f: "wikipedia_fetch net t s = (Inr d, s1)" by auto
  from wikipedia_try_success [OF wikipedia_fetch_success [OF f assms(4)] assms(4)]
  obtain r s0 j pageid r2 j2 ext summary where
    g: "http_get net (wikipedia_url t) s = (Inr r, s0)" "json_body r = Some j"
       "search_pageid j = Inr pageid" "truthy pageid"
       "http_get net (wikipedia_url2 pageid) s0 = (Inr r2, s1)" "json_body r2 = Some j2"
       "page_extract j2 pageid = Inr ext" "py_slice_1200 ext = Inr summary"
    and d: "d = JObj [(''source'', JStr ''wikipedia''),
                     (''official_url'', JStr (''https://en.wikipedia.org/?curid='' @ py_str pageid)),
                     (''fields'', JObj [(''summary'', summary)])]"
    by blast
  from g(8) have b: "summary_bounded summary" by (rule py_slice_1200_bounded)
  then have l: "\<forall>txt. summary = JStr txt \<longrightarrow> length txt \<le> 1200" by auto
  from g(8) have tk: "\<forall>txt. ext = JStr txt \<longrightarrow> summary = JStr (take 1200 txt)" by auto
  from g d b l tk show ?thesis by blast
qed

theorem fallback_result_is_one_summary_witness:
  "CACHE cold_state = Some Map.empty
   \<and> wikipedia_entry_ok Map.empty ''GeForce''
   \<and> fst (wikipedia_summary long_net ''GeForce'' cold_state)
       = Inr (JObj [(''source'', JStr ''wikipedia''),
                    (''official_url'', JStr ''https://en.wikipedia.org/?curid=42''),
                    (''fields'', JObj [(''summary'', JStr (replicate 1200 CHR ''a''))])])
   \<and> summary_bounded (JStr (replicate 1200 CHR ''a''))
   \<and> length (replicate 1200 CHR ''a'') \<le> 1200"
proof -
  have bound: "CACHE cold_state = Some Map.empty" by (simp add: cold_state_def)
  have ok: "wikipedia_entry_ok Map.empty ''GeForce''" by (simp add: wikipedia_entry_ok_def)
  have "fst (wikipedia_summary long_net ''GeForce'' cold_state)
       = Inr (JObj [(''source'', JStr ''wikipedia''),
                    (''official_url'', JStr ''https://en.wikipedia.org/?curid=42''),
                    (''fields'', JObj [(''summary'', JStr (replicate 1200 CHR ''a''))])])"
    by (simp add: resolver_defs string_defs long_net_def cold_state_def json_response_def
        search_json_def long_extract_json_def str_nat.simps)
  then have run: "wikipedia_summary long_net ''GeForce'' cold_state
       = (Inr (JObj [(''source'', JStr ''wikipedia''),
                    (''official_url'', JStr ''https://en.wikipedia.org/?curid=42''),
                    (''fields'', JObj [(''summary'', JStr (replicate 1200 CHR ''a''))])]),
          snd (wikipedia_summary long_net ''GeForce'' cold_state))"
    by (simp add: prod_eq_iff)
  have t: "truthy (JObj [(''source'', JStr ''wikipedia''),
                    (''official_url'', JStr ''https://en.wikipedia.org/?curid=42''),
                    (''fields'', JObj [(''summary'', JStr (replicate 1200 CHR ''a''))])])"
    by simp
  from fallback_result_is_one_summary [OF bound ok run t]
  obtain url summary where
    e: "JObj [(''source'', JStr ''wikipedia''),
              (''official_url'', JStr ''https://en.wikipedia.org/?curid=42''),
              (''fields'', JObj [(''summary'', JStr (replicate 1200 CHR ''a''))])]
        = JObj [(''source'', JStr ''wikipedia''), (''official_url'', url),
                (''fields'', JObj [(''summary'', summary)])]"
    and b: "summary_bounded summary"
    by blast
  from e have "summary = JStr (replicate 1200 CHR ''a'')" by simp
  with b have "summary_bounded (JStr (replicate 1200 CHR ''a''))" by simp
  with bound ok \<open>fst (wikipedia_summary long_net ''GeForce'' cold_state) = _\<close>
  show ?thesis by simp
qed

text \<open>
  Claim C5 does not hold of the module as it is: \<^verbatim>\<open>fetch\<close> catches every exception
  of its own body, but the call of the cache layer is outside that \<^verbatim>\<open>try\<close>, and in
  the module's state, where \<^verbatim>\<open>CACHE\<close> is unbound, it raises \<^verbatim>\<open>NameError\<close> to the
  caller of the resolver, for every title and on every network. (With \<^verbatim>\<open>CACHE\<close>
  bound the resolver always returns, as \<open>wikipedia_summary_returns\<close> shows.)
\<close>

theorem fallback_raises_NameError:
  "wikipedia_summary net title' module_state = (Inl NameError, module_state)"
  by (simp add: wikipedia_summary_def cache_or_fetch_json_def module_state_def)

subsection \<open>A search page without a matching link\<close>

lemma wikipedia_summary_shape:
  assumes "CACHE s = Some c" and "wikipedia_entry_ok c t"
  shows "\<exists>d s' c'. wikipedia_summary net t s = (Inr d, s') \<and> CACHE s' = Some c'
           \<and> (d = JObj [] \<or> fallback_success d)"
proof -
  from wikipedia_summary_bound [OF assms(1), of t net]
  show ?thesis
  proof
    assume hit: "truthy (or_None (c (''wikipedia:'' @ t))) \<and>
            wikipedia_summary net t s = (Inr (or_None (c (''wikipedia:'' @ t))), s)"
    then obtain d0 where d0: "c (''wikipedia:'' @ t) = Some d0" "truthy d0"
      by (cases "c (''wikipedia:'' @ t)") (simp_all add: or_None_def)
    with assms(2) have "fallback_success d0" by (simp add: wikipedia_entry_ok_def)
    with hit d0 assms(1) show ?thesis by (simp add: or_None_def)
  next
    assume "\<not> truthy (or_None (c (''wikipedia:'' @ t))) \<and>
            (\<exists>d s1. wikipedia_fetch net t s = (Inr d, s1) \<and> CACHE s1 = Some c
               \<and> wikipedia_summary net t s
                   = (Inr d, s1\<lparr>CACHE := Some (c(''wikipedia:'' @ t \<mapsto> d))\<rparr>))"
    then obtain d s1 where f: "wikipedia_fetch net t s = (Inr d, s1)"
      and w: "wikipedia_summary net t s = (Inr d, s1\<lparr>CACHE := Some (c(''wikipedia:'' @ t \<mapsto> d))\<rparr>)"
      by blast
    from wikipedia_fetch_shape [OF f] w show ?thesis by simp
  qed
qed

lemma fallback_shape_is_dict: "d = JObj [] \<or> fallback_success d \<Longrightarrow> is_dict d"
  by (auto dest: fallback_success_is_dict)

lemma fallback_shape_OnlineSpec:
  assumes "d = JObj [] \<or> fallback_success d"
  shows "\<exists>spec. OnlineSpec_of d = Inr spec
           \<and> ((d = JObj [] \<and> source spec = JStr []) \<or> source spec = JStr ''wikipedia'')"
  using assms by (auto simp: fallback_success_iff OnlineSpec_of_def)

lemma intel_ark_try_no_link:
  assumes "http_get net (intel_search_url nm) s = (Inr r, s1)"
    and "no_href (first_href ''/products/'' (parsed r))"
  shows "intel_ark_try net nm s = wikipedia_summary net nm s1"
  using assms by (simp add: intel_ark_try_def Let_def)

lemma techpowerup_try_no_link:
  assumes "http_get net (techpowerup_search_url nm) s = (Inr r, s1)"
    and "no_href (first_href ''/gpu-specs/'' (parsed r))"
  shows "techpowerup_try net nm s = wikipedia_summary net nm s1"
  using assms by (simp add: techpowerup_try_def Let_def)

text \<open>A vendor resolver whose fetch ends in the fallback resolver's result.\<close>

lemma vendor_delegates:
  assumes bound: "CACHE s = Some c" and ok: "wikipedia_entry_ok c nm"
    and miss: "\<not> truthy (or_None (c key))"
    and get: "http_get net url s = (Inr r, s1)"
    and tb: "try_body s = wikipedia_summary net nm s1"
    and fetch: "fetch_fn s = (case try_body s of (Inl e, s') \<Rightarrow> wikipedia_summary net nm s'
                              | (Inr d, s') \<Rightarrow> (Inr d, s'))"
  shows "\<exists>d s2 spec. wikipedia_summary net nm s1 = (Inr d, s2)
           \<and> fetch_fn s = (Inr d, s2)
           \<and> fst (cache_or_fetch_json key fetch_fn s) = Inr d
           \<and> (d = JObj [] \<or> fallback_success d)
           \<and> OnlineSpec_of d = Inr spec
           \<and> ((d = JObj [] \<and> source spec = JStr []) \<or> source spec = JStr ''wikipedia'')"
proof -
  from get bound have bound1: "CACHE s1 = Some c" by (simp add: http_get_CACHE)
  from wikipedia_summary_shape [OF bound1 ok, of net]
  obtain d s2 c2 where w: "wikipedia_summary net nm s1 = (Inr d, s2)"
    and c2: "CACHE s2 = Some c2" and shape: "d = JObj [] \<or> fallback_success d"
    by blast
  from fetch tb w have f: "fetch_fn s = (Inr d, s2)" by simp
  from shape have "is_dict d" by (rule fallback_shape_is_dict)
  with bound miss f c2 have "fst (cache_or_fetch_json key fetch_fn s) = Inr d"
    by (simp add: cache_layer_store)
  with w f shape fallback_shape_OnlineSpec [OF shape] show ?thesis by blast
qed

text \<open>
  Claim C2, as the code has it. From a state where \<^verbatim>\<open>CACHE\<close> is bound and the store is
  in order for the name: when a vendor resolver finds nothing served from its own
  key, gets its search page and the page has no matching link, its fetch returns
  what the fallback resolver returns for the name, and so does the resolver. That
  result is a successful fallback result, whose source is \<^verbatim>\<open>wikipedia\<close>, or it is the
  empty mapping, which gives an \<^verbatim>\<open>OnlineSpec\<close> with the empty source; it is never
  the vendor's source tag.
\<close>

theorem no_link_gives_fallback_result:
  assumes "CACHE s = Some c" and "wikipedia_entry_ok c nm"
  shows "(\<not> truthy (or_None (c (''intel:'' @ nm)))
            \<and> http_get net (intel_search_url nm) s = (Inr r, s1)
            \<and> no_href (first_href ''/products/'' (parsed r))
          \<longrightarrow> (\<exists>d s2 spec. wikipedia_summary net nm s1 = (Inr d, s2)
                 \<and> intel_ark_fetch net nm s = (Inr d, s2)
                 \<and> fst (intel_ark_specs net nm s) = Inr d
                 \<and> (d = JObj [] \<or> fallback_success d)
                 \<and> OnlineSpec_of d = Inr spec
                 \<and> ((d = JObj [] \<and> source spec = JStr []) \<or> source spec = JStr ''wikipedia'')))
       \<and> (\<not> truthy (or_None (c (''tpu:'' @ nm)))
            \<and> http_get net (techpowerup_search_url nm) s = (Inr r, s1)
            \<and> no_href (first_href ''/gpu-specs/'' (parsed r))
          \<longrightarrow> (\<exists>d s2 spec. wikipedia_summary net nm s1 = (Inr d, s2)
                 \<and> techpowerup_fetch net nm s = (Inr d, s2)
                 \<and> fst (techpowerup_gpu_specs net nm s) = Inr d
                 \<and> (d = JObj [] \<or> fallback_success d)
                 \<and> OnlineSpec_of d = Inr spec
                 \<and> ((d = JObj [] \<and> source spec = JStr []) \<or> source spec = JStr ''wikipedia'')))"
proof (intro conjI impI)
  assume a: "\<not> truthy (or_None (c (''intel:'' @ nm)))
            \<and> http_get net (intel_search_url nm) s = (Inr r, s1)
            \<and> no_href (first_href ''/products/'' (parsed r))"
  then have tb: "intel_ark_try net nm s = wikipedia_summary net nm s1"
    by (simp add: intel_ark_try_no_link)
  have fetch: "intel_ark_fetch net nm s
      = (case intel_ark_try net nm s of (Inl e, s') \<Rightarrow> wikipedia_summary net nm s'
         | (Inr d, s') \<Rightarrow> (Inr d, s'))"
    by (simp add: intel_ark_fetch_def)
  from a have miss: "\<not> truthy (or_None (c (''intel:'' @ nm)))"
    and get: "http_get net (intel_search_url nm) s = (Inr r, s1)" by simp_all
  from vendor_delegates [where try_body = "intel_ark_try net nm"
      and fetch_fn = "intel_ark_fetch net nm", OF assms miss get tb fetch]
  show "\<exists>d s2 spec. wikipedia_summary net nm s1 = (Inr d, s2)
                 \<and> intel_ark_fetch net nm s = (Inr d, s2)
                 \<and> fst (intel_ark_specs net nm s) = Inr d
                 \<and> (d = JObj [] \<or> fallback_success d)
                 \<and> OnlineSpec_of d = Inr spec
                 \<and> ((d = JObj [] \<and> source spec = JStr []) \<or> source spec = JStr ''wikipedia'')"
    by (simp add: intel_ark_specs_def)
next
  assume a: "\<not> truthy (or_None (c (''tpu:'' @ nm)))
            \<and> http_get net (techpowerup_search_url nm) s = (Inr r, s1)
            \<and> no_href (first_href ''/gpu-specs/'' (parsed r))"
  then have tb: "techpowerup_try net nm s = wikipedia_summary net nm s1"
    by (simp add: techpowerup_try_no_link)
  have fetch: "techpowerup_fetch net nm s
      = (case techpowerup_try net nm s of (Inl e, s') \<Rightarrow> wikipedia_summary net nm s'
         | (Inr d, s') \<Rightarrow> (Inr d, s'))"
    by (simp add: techpowerup_fetch_def)
  from a have miss: "\<not> truthy (or_None (c (''tpu:'' @ nm)))"
    and get: "http_get net (techpowerup_search_url nm) s = (Inr r, s1)" by simp_all
  from vendor_delegates [where try_body = "techpowerup_try net nm"
      and fetch_fn = "techpowerup_fetch net nm", OF assms miss get tb fetch]
  show "\<exists>d s2 spec. wikipedia_summary net nm s1 = (Inr d, s2)
                 \<and> techpowerup_fetch net nm s = (Inr d, s2)
                 \<and> fst (techpowerup_gpu_specs net nm s) = Inr d
                 \<and> (d = JObj [] \<or> fallback_success d)
                 \<and> OnlineSpec_of d = Inr spec
                 \<and> ((d = JObj [] \<and> source spec = JStr []) \<or> source spec = JStr ''wikipedia'')"
    by (simp add: techpowerup_gpu_specs_def)
qed

theorem no_link_gives_fallback_result_witness:
  "CACHE cold_state = Some Map.empty
   \<and> wikipedia_entry_ok Map.empty ''GeForce''
   \<and> \<not> truthy (or_None (Map.empty (''tpu:'' @ ''GeForce'')))
   \<and> http_get fallback_net (techpowerup_search_url ''GeForce'') cold_state
       = (Inr (page_response blank_page),
          cold_state\<lparr>requests := [techpowerup_search_url ''GeForce'']\<rparr>)
   \<and> no_href (first_href ''/gpu-specs/'' (parsed (page_response blank_page)))
   \<and> fst (techpowerup_gpu_specs fallback_net ''GeForce'' cold_state) = Inr wiki_doc
   \<and> (\<exists>spec. OnlineSpec_of wiki_doc = Inr spec \<and> source spec = JStr ''wikipedia'')"
proof -
  have bound: "CACHE cold_state = Some Map.empty" by (simp add: cold_state_def)
  have ok: "wikipedia_entry_ok Map.empty ''GeForce''" by (simp add: wikipedia_entry_ok_def)
  have miss: "\<not> truthy (or_None (Map.empty (''tpu:'' @ ''GeForce'')))" by (simp add: or_None_def)
  have get: "http_get fallback_net (techpowerup_search_url ''GeForce'') cold_state
       = (Inr (page_response blank_page),
          cold_state\<lparr>requests := [techpowerup_search_url ''GeForce'']\<rparr>)"
    by (simp add: http_get_def fallback_net_def cold_state_def page_response_def)
  have nolink: "no_href (first_href ''/gpu-specs/'' (parsed (page_response blank_page)))"
    by (simp add: no_href_def first_href_def page_response_def blank_page_def)
  have run: "fst (techpowerup_gpu_specs fallback_net ''GeForce'' cold_state) = Inr wiki_doc"
    by (simp add: resolver_defs string_defs fallback_net_def cold_state_def json_response_def
        page_response_def blank_page_def search_json_def extract_json_def wiki_doc_def
        str_nat.simps)
  from no_link_gives_fallback_result [OF bound ok, where net = fallback_net
      and r = "page_response blank_page"
      and ?s1.0 = "cold_state\<lparr>requests := [techpowerup_search_url ''GeForce'']\<rparr>"]
    miss get nolink
  obtain d spec where d: "fst (techpowerup_gpu_specs fallback_net ''GeForce'' cold_state) = Inr d"
    and spec: "OnlineSpec_of d = Inr spec"
    and src: "(d = JObj [] \<and> source spec = JStr []) \<or> source spec = JStr ''wikipedia''"
    by blast
  from d run have "d = wiki_doc" by simp
  with spec src have "OnlineSpec_of wiki_doc = Inr spec \<and> source spec = JStr ''wikipedia''"
    by (auto simp: wiki_doc_def)
  with bound ok miss get nolink run show ?thesis by blast
qed

text \<open>
  The claim as the specification states it fails when the fallback resolver fails
  too: the search page has no link, the request of the fallback resolver fails, and
  the result is the empty mapping, whose source is empty, not the fallback
  resolver's tag.
\<close>

theorem no_link_and_failed_fallback:
  "no_href (first_href ''/products/'' blank_page)
   \<and> fst (intel_ark_specs no_link_net ''i7'' cold_state) = Inr (JObj [])
   \<and> requests (snd (intel_ark_specs no_link_net ''i7'' cold_state))
       = [intel_search_url ''i7'', wikipedia_url ''i7'']
   \<and> OnlineSpec_of (JObj []) = Inr empty_spec
   \<and> source empty_spec \<noteq> JStr ''wikipedia''"
  by (simp add: resolver_defs no_link_net_def cold_state_def page_response_def blank_page_def
      OnlineSpec_of_def empty_spec_def)

subsection \<open>The fields of a detail page\<close>

text \<open>
  Claim C4, as the code has it. The CPU resolver extracts what the specification
  describes, except that with no pair and no title the single entry \<^verbatim>\<open>title\<close> holds
  the name of the component, so that the fields are never empty. The GPU resolver
  does the same on the table rows only: it never reads the sibling pairs.
\<close>

theorem fields_of_detail_page:
  "intel_ark_fields psoup cpu_name
     = (let found = claimed_fields intel_wanted psoup
        in if found = [] then [(''title'', cpu_name)] else found)
   \<and> techpowerup_fields psoup gpu_name
     = (let found = claimed_fields tpu_wanted (psoup\<lparr>dts := []\<rparr>)
        in if found = [] then [(''title'', gpu_name)] else found)"
  by (cases "title psoup")
    (simp_all add: intel_ark_fields_def techpowerup_fields_def claimed_fields_def
      choose_fields_def title_or_def Let_def)

text \<open>
  The claim as the specification states it fails twice: a page with no pair and no
  title gives the entry \<^verbatim>\<open>title\<close> with the component's name, not the empty
  mapping; and on a page that has a sibling pair and a table row the GPU resolver
  returns the row, not the pair.
\<close>

theorem no_title_gives_name_and_gpu_reads_rows_only:
  "title blank_page = None
   \<and> claimed_fields intel_wanted blank_page = []
   \<and> intel_ark_fields blank_page ''i7'' = [(''title'', ''i7'')]
   \<and> claimed_fields tpu_wanted both_shapes_page = [(''TDP'', ''250 W'')]
   \<and> techpowerup_fields both_shapes_page ''GeForce'' = [(''Bus Interface'', ''PCIe 3.0'')]"
  by (simp add: intel_ark_fields_def techpowerup_fields_def claimed_fields_def
      choose_fields_def title_or_def Let_def blank_page_def both_shapes_page_def
      filter_wanted_def intel_wanted_def tpu_wanted_def normspace_def strip_def isspace_def)

subsection \<open>The choice of the resolver\<close>

lemma startswith_contains: "startswith s p \<Longrightarrow> contains s p"
  by (cases s) (auto simp: startswith_def)

lemma startswith_append: "startswith s (p @ q) \<Longrightarrow> startswith s p"
proof -
  assume "startswith s (p @ q)"
  then have "take (length p + length q) s = p @ q" by (simp add: startswith_def)
  then have "take (length p) (take (length p + length q) s) = take (length p) (p @ q)" by simp
  then show ?thesis by (simp add: startswith_def min_def)
qed

lemma intel_prefix_contains: "startswith s ''intel '' \<Longrightarrow> contains s ''intel''"
  using startswith_append [of s "''intel''" "'' ''"] by (simp add: startswith_contains)

lemma gpu_tasks_resolver: "t \<in> set (gpu_tasks igs) \<Longrightarrow> fst (snd t) = TechPowerUp"
  by (induction igs rule: gpu_tasks.induct) (auto split: if_splits)

lemma gpu_tasks_named:
  "(i, g) \<in> set igs \<Longrightarrow> GPUInfo.name g \<noteq> []
     \<Longrightarrow> (''gpu'' @ str_nat i, TechPowerUp, GPUInfo.name g) \<in> set (gpu_tasks igs)"
  by (induction igs rule: gpu_tasks.induct) (auto split: if_splits)

lemma gpu_tasks_filter:
  "gpu_tasks igs
     = map (\<lambda>ig. (''gpu'' @ str_nat (fst ig), TechPowerUp, GPUInfo.name (snd ig)))
         (filter (\<lambda>ig. GPUInfo.name (snd ig) \<noteq> []) igs)"
  by (induction igs rule: gpu_tasks.induct) simp_all

lemma gpu_tasks_name_not_Nil: "t \<in> set (gpu_tasks igs) \<Longrightarrow> snd (snd t) \<noteq> []"
  by (induction igs rule: gpu_tasks.induct) (auto split: if_splits)

lemma cpu_tasks_name_not_Nil: "t \<in> set (cpu_tasks rep) \<Longrightarrow> snd (snd t) \<noteq> []"
  by (cases "cpu rep") (auto simp: cpu_tasks_def split: if_splits)

lemma cpu_tasks_key: "t \<in> set (cpu_tasks rep) \<Longrightarrow> fst t = ''cpu''"
  by (cases "cpu rep") (auto simp: cpu_tasks_def split: if_splits)

lemma gpu_unnamed_no_key:
  assumes "i < length gs" and "GPUInfo.name (gs ! i) = []"
  shows "''gpu'' @ str_nat i \<notin> fst ` set (gpu_tasks (enumerate 0 gs))"
proof
  assume "''gpu'' @ str_nat i \<in> fst ` set (gpu_tasks (enumerate 0 gs))"
  then obtain ig where ig: "ig \<in> set (enumerate 0 gs)" "GPUInfo.name (snd ig) \<noteq> []"
    and key: "''gpu'' @ str_nat i = ''gpu'' @ str_nat (fst ig)"
    by (auto simp: gpu_tasks_filter)
  from key have "fst ig = i" by (auto dest: str_nat_inj)
  moreover from ig(1) have "(fst ig, snd ig) \<in> set (enumerate 0 gs)" by simp
  then have "snd ig = gs ! fst ig" by (simp add: in_set_enumerate_eq)
  ultimately show False using ig(2) assms(2) by simp
qed

text \<open>
  Claim C7, as the code has it. The tasks are a function of the report's CPU and
  GPUs alone. A CPU with a name gets one task: for the vendor's resolver exactly
  when its manufacturer has \<^verbatim>\<open>intel\<close> in it or its name starts with \<^verbatim>\<open>intel\<close> and a
  space, in any case of the letters, and for the fallback resolver otherwise; so a
  CPU sent to the vendor's resolver is one the specification's test recognises too,
  but not the other way round. The GPU tasks are those of the GPUs with a name, in
  the order of the report, each under the key of its index and for the GPU
  vendor's resolver. A component without a name, CPU or GPU, gets no task: every
  submitted task has a name, and no task has the key of a GPU without a name.
\<close>

theorem routing_of_components:
  "(cpu rep = None \<longrightarrow> cpu_tasks rep = [])
   \<and> (\<forall>c. cpu rep = Some c \<longrightarrow>
         cpu_tasks rep =
           (if CPUInfo.name c = [] then []
            else [(''cpu'',
                   (if contains (lower (manufacturer c)) ''intel''
                       \<or> startswith (lower (CPUInfo.name c)) ''intel ''
                    then IntelArk else Wikipedia),
                   CPUInfo.name c)]))
   \<and> (\<forall>k nm. (k, IntelArk, nm) \<in> set (cpu_tasks rep) \<longrightarrow>
         (\<exists>c. cpu rep = Some c \<and> claimed_cpu_resolver (manufacturer c) (CPUInfo.name c) = IntelArk))
   \<and> (\<forall>t \<in> set (gpu_tasks igs). fst (snd t) = TechPowerUp)
   \<and> (\<forall>i g. (i, g) \<in> set igs \<and> GPUInfo.name g \<noteq> [] \<longrightarrow>
         (''gpu'' @ str_nat i, TechPowerUp, GPUInfo.name g) \<in> set (gpu_tasks igs))
   \<and> (cpu rep = cpu rep' \<and> gpus rep = gpus rep' \<longrightarrow> submitted rep = submitted rep')
   \<and> gpu_tasks igs
       = map (\<lambda>ig. (''gpu'' @ str_nat (fst ig), TechPowerUp, GPUInfo.name (snd ig)))
           (filter (\<lambda>ig. GPUInfo.name (snd ig) \<noteq> []) igs)
   \<and> (\<forall>t \<in> set (gpu_tasks igs). snd (snd t) \<noteq> [])
   \<and> (\<forall>t \<in> set (submitted rep). snd (snd t) \<noteq> [])
   \<and> (\<forall>i. i < length (gpus rep) \<and> GPUInfo.name (gpus rep ! i) = [] \<longrightarrow>
         ''gpu'' @ str_nat i \<notin> fst ` set (submitted rep))
   \<and> (\<forall>i. i < length (gpus rep) \<and> GPUInfo.name (gpus rep ! i) \<noteq> [] \<longrightarrow>
         (''gpu'' @ str_nat i, TechPowerUp, GPUInfo.name (gpus rep ! i)) \<in> set (submitted rep))
   \<and> submitted rep = cpu_tasks rep @ gpu_tasks (enumerate 0 (gpus rep))"
proof -
  have a: "cpu rep = None \<longrightarrow> cpu_tasks rep = []" by (simp add: cpu_tasks_def)
  have b: "\<forall>c. cpu rep = Some c \<longrightarrow>
         cpu_tasks rep =
           (if CPUInfo.name c = [] then []
            else [(''cpu'',
                   (if contains (lower (manufacturer c)) ''intel''
                       \<or> startswith (lower (CPUInfo.name c)) ''intel ''
                    then IntelArk else Wikipedia),
                   CPUInfo.name c)])"
    by (simp add: cpu_tasks_def)
  have c: "\<forall>k nm. (k, IntelArk, nm) \<in> set (cpu_tasks rep) \<longrightarrow>
         (\<exists>c. cpu rep = Some c \<and> claimed_cpu_resolver (manufacturer c) (CPUInfo.name c) = IntelArk)"
    by (cases "cpu rep")
      (auto simp: cpu_tasks_def claimed_cpu_resolver_def split: if_splits
        dest: intel_prefix_contains)
  have d: "\<forall>t \<in> set (gpu_tasks igs). fst (snd t) = TechPowerUp"
    by (simp add: gpu_tasks_resolver)
  have e: "\<forall>i g. (i, g) \<in> set igs \<and> GPUInfo.name g \<noteq> [] \<longrightarrow>
         (''gpu'' @ str_nat i, TechPowerUp, GPUInfo.name g) \<in> set (gpu_tasks igs)"
    using gpu_tasks_named by blast
  have f: "cpu rep = cpu rep' \<and> gpus rep = gpus rep' \<longrightarrow> submitted rep = submitted rep'"
    by (simp add: submitted_def cpu_tasks_def)
  have g: "gpu_tasks igs
       = map (\<lambda>ig. (''gpu'' @ str_nat (fst ig), TechPowerUp, GPUInfo.name (snd ig)))
           (filter (\<lambda>ig. GPUInfo.name (snd ig) \<noteq> []) igs)"
    by (rule gpu_tasks_filter)
  have h: "\<forall>t \<in> set (gpu_tasks igs). snd (snd t) \<noteq> []"
    by (simp add: gpu_tasks_name_not_Nil)
  have i: "\<forall>i. i < length (gpus rep) \<and> GPUInfo.name (gpus rep ! i) = [] \<longrightarrow>
         ''gpu'' @ str_nat i \<notin> fst ` set (submitted rep)"
    using gpu_unnamed_no_key [of _ "gpus rep"]
    by (auto simp: submitted_def dest: cpu_tasks_key)
  have l: "\<forall>i. i < length (gpus rep) \<and> GPUInfo.name (gpus rep ! i) \<noteq> [] \<longrightarrow>
         (''gpu'' @ str_nat i, TechPowerUp, GPUInfo.name (gpus rep ! i)) \<in> set (submitted rep)"
  proof (intro allI impI)
    fix i
    assume n: "i < length (gpus rep) \<and> GPUInfo.name (gpus rep ! i) \<noteq> []"
    then have "(i, gpus rep ! i) \<in> set (enumerate 0 (gpus rep))"
      by (simp add: in_set_enumerate_eq)
    from gpu_tasks_named [OF this] n
    show "(''gpu'' @ str_nat i, TechPowerUp, GPUInfo.name (gpus rep ! i)) \<in> set (submitted rep)"
      by (simp add: submitted_def)
  qed
  have j: "\<forall>t \<in> set (submitted rep). snd (snd t) \<noteq> []"
    by (auto simp: submitted_def dest: cpu_tasks_name_not_Nil gpu_tasks_name_not_Nil)
  have k: "submitted rep = cpu_tasks rep @ gpu_tasks (enumerate 0 (gpus rep))"
    by (simp add: submitted_def)
  from a b c d e f have "(cpu rep = None \<longrightarrow> cpu_tasks rep = [])
   \<and> (\<forall>c. cpu rep = Some c \<longrightarrow>
         cpu_tasks rep =
           (if CPUInfo.name c = [] then []
            else [(''cpu'',
                   (if contains (lower (manufacturer c)) ''intel''
                       \<or> startswith (lower (CPUInfo.name c)) ''intel ''
                    then IntelArk else Wikipedia),
                   CPUInfo.name c)]))
   \<and> (\<forall>k nm. (k, IntelArk, nm) \<in> set (cpu_tasks rep) \<longrightarrow>
         (\<exists>c. cpu rep = Some c \<and> claimed_cpu_resolver (manufacturer c) (CPUInfo.name c) = IntelArk))
   \<and> (\<forall>t \<in> set (gpu_tasks igs). fst (snd t) = TechPowerUp)
   \<and> (\<forall>i g. (i, g) \<in> set igs \<and> GPUInfo.name g \<noteq> [] \<longrightarrow>
         (''gpu'' @ str_nat i, TechPowerUp, GPUInfo.name g) \<in> set (gpu_tasks igs))
   \<and> (cpu rep = cpu rep' \<and> gpus rep = gpus rep' \<longrightarrow> submitted rep = submitted rep')"
    by blast
  with g h i j k l show ?thesis by (intro conjI) blast+
qed

theorem routing_of_components_witness:
  "cpu two_components = Some \<lparr>CPUInfo.name = ''Intel Core i7'', manufacturer = ''GenuineIntel''\<rparr>
   \<and> cpu_tasks two_components = [(''cpu'', IntelArk, ''Intel Core i7'')]
   \<and> claimed_cpu_resolver ''GenuineIntel'' ''Intel Core i7'' = IntelArk
   \<and> (0, \<lparr>GPUInfo.name = ''GeForce''\<rparr>) \<in> set (enumerate 0 (gpus two_components))
   \<and> GPUInfo.name \<lparr>GPUInfo.name = ''GeForce''\<rparr> \<noteq> []
   \<and> (''gpu'' @ str_nat 0, TechPowerUp, ''GeForce'')
        \<in> set (gpu_tasks (enumerate 0 (gpus two_components)))
   \<and> cpu no_report = None
   \<and> cpu_tasks no_report = []
   \<and> cpu two_components = cpu (two_components\<lparr>online := [''cpu'' \<mapsto> empty_spec]\<rparr>)
   \<and> gpus two_components = gpus (two_components\<lparr>online := [''cpu'' \<mapsto> empty_spec]\<rparr>)
   \<and> submitted two_components = submitted (two_components\<lparr>online := [''cpu'' \<mapsto> empty_spec]\<rparr>)
   \<and> cpu unnamed_report = Some \<lparr>CPUInfo.name = [], manufacturer = ''GenuineIntel''\<rparr>
   \<and> cpu_tasks unnamed_report = []
   \<and> gpus unnamed_report = [\<lparr>GPUInfo.name = []\<rparr>, \<lparr>GPUInfo.name = ''GeForce''\<rparr>]
   \<and> gpu_tasks (enumerate 0 (gpus unnamed_report)) = [(''gpu1'', TechPowerUp, ''GeForce'')]
   \<and> submitted unnamed_report = [(''gpu1'', TechPowerUp, ''GeForce'')]
   \<and> 0 < length (gpus unnamed_report)
   \<and> GPUInfo.name (gpus unnamed_report ! 0) = []
   \<and> ''gpu0'' \<notin> fst ` set (submitted unnamed_report)
   \<and> 1 < length (gpus unnamed_report)
   \<and> GPUInfo.name (gpus unnamed_report ! 1) \<noteq> []
   \<and> (''gpu1'', TechPowerUp, ''GeForce'') \<in> set (submitted unnamed_report)"
proof -
  have c: "cpu two_components
      = Some \<lparr>CPUInfo.name = ''Intel Core i7'', manufacturer = ''GenuineIntel''\<rparr>"
    by (simp add: two_components_def)
  have g: "(0, \<lparr>GPUInfo.name = ''GeForce''\<rparr>) \<in> set (enumerate 0 (gpus two_components))"
    by (simp add: two_components_def)
  have n: "GPUInfo.name \<lparr>GPUInfo.name = ''GeForce''\<rparr> \<noteq> []" by simp
  have z: "cpu no_report = None" by (simp add: no_report_def)
  have same: "cpu two_components = cpu (two_components\<lparr>online := [''cpu'' \<mapsto> empty_spec]\<rparr>)"
    "gpus two_components = gpus (two_components\<lparr>online := [''cpu'' \<mapsto> empty_spec]\<rparr>)"
    by simp_all
  note r = routing_of_components [of two_components "enumerate 0 (gpus two_components)"
      "two_components\<lparr>online := [''cpu'' \<mapsto> empty_spec]\<rparr>"]
  from r have "\<forall>c. cpu two_components = Some c \<longrightarrow>
         cpu_tasks two_components =
           (if CPUInfo.name c = [] then []
            else [(''cpu'',
                   (if contains (lower (manufacturer c)) ''intel''
                       \<or> startswith (lower (CPUInfo.name c)) ''intel ''
                    then IntelArk else Wikipedia),
                   CPUInfo.name c)])"
    by blast
  with c have t: "cpu_tasks two_components = [(''cpu'', IntelArk, ''Intel Core i7'')]"
    by (simp add: lower_def lower_char_def startswith_def char_of_def bit_Suc_0_iff)
  from r have "\<forall>k nm. (k, IntelArk, nm) \<in> set (cpu_tasks two_components) \<longrightarrow>
         (\<exists>c. cpu two_components = Some c
              \<and> claimed_cpu_resolver (manufacturer c) (CPUInfo.name c) = IntelArk)"
    by blast
  with t c have cl: "claimed_cpu_resolver ''GenuineIntel'' ''Intel Core i7'' = IntelArk"
    by auto
  from r have "\<forall>i g. (i, g) \<in> set (enumerate 0 (gpus two_components)) \<and> GPUInfo.name g \<noteq> [] \<longrightarrow>
         (''gpu'' @ str_nat i, TechPowerUp, GPUInfo.name g)
           \<in> set (gpu_tasks (enumerate 0 (gpus two_components)))"
    by blast
  with g n have gt: "(''gpu'' @ str_nat 0, TechPowerUp, ''GeForce'')
      \<in> set (gpu_tasks (enumerate 0 (gpus two_components)))"
    by fastforce
  from r same have sub: "submitted two_components
      = submitted (two_components\<lparr>online := [''cpu'' \<mapsto> empty_spec]\<rparr>)"
    by blast
  from routing_of_components [of no_report] z have e: "cpu_tasks no_report = []" by blast
  have uc: "cpu unnamed_report = Some \<lparr>CPUInfo.name = [], manufacturer = ''GenuineIntel''\<rparr>"
    by (simp add: unnamed_report_def)
  have ug: "gpus unnamed_report = [\<lparr>GPUInfo.name = []\<rparr>, \<lparr>GPUInfo.name = ''GeForce''\<rparr>]"
    by (simp add: unnamed_report_def)
  have k0: "''gpu'' @ str_nat 0 = ''gpu0''" and k1: "''gpu'' @ str_nat 1 = ''gpu1''"
    by (simp_all add: str_nat.simps digit_char_def char_of_def bit_Suc_0_iff)
  note u = routing_of_components [of unnamed_report "enumerate 0 (gpus unnamed_report)"]
  from u have "\<forall>c. cpu unnamed_report = Some c \<longrightarrow>
         cpu_tasks unnamed_report =
           (if CPUInfo.name c = [] then []
            else [(''cpu'',
                   (if contains (lower (manufacturer c)) ''intel''
                       \<or> startswith (lower (CPUInfo.name c)) ''intel ''
                    then IntelArk else Wikipedia),
                   CPUInfo.name c)])"
    by blast
  with uc have ut: "cpu_tasks unnamed_report = []" by simp
  from u have "gpu_tasks (enumerate 0 (gpus unnamed_report))
       = map (\<lambda>ig. (''gpu'' @ str_nat (fst ig), TechPowerUp, GPUInfo.name (snd ig)))
           (filter (\<lambda>ig. GPUInfo.name (snd ig) \<noteq> []) (enumerate 0 (gpus unnamed_report)))"
    by blast
  with ug k1 have ugt: "gpu_tasks (enumerate 0 (gpus unnamed_report))
      = [(''gpu1'', TechPowerUp, ''GeForce'')]"
    by simp
  from u have "submitted unnamed_report
      = cpu_tasks unnamed_report @ gpu_tasks (enumerate 0 (gpus unnamed_report))"
    by blast
  with ut ugt have us: "submitted unnamed_report = [(''gpu1'', TechPowerUp, ''GeForce'')]"
    by simp
  have l0: "0 < length (gpus unnamed_report)" "GPUInfo.name (gpus unnamed_report ! 0) = []"
    and l1: "1 < length (gpus unnamed_report)" "GPUInfo.name (gpus unnamed_report ! 1) \<noteq> []"
    by (simp_all add: ug)
  from u have "\<forall>i. i < length (gpus unnamed_report) \<and> GPUInfo.name (gpus unnamed_report ! i) = [] \<longrightarrow>
         ''gpu'' @ str_nat i \<notin> fst ` set (submitted unnamed_report)"
    by blast
  with l0 have "''gpu'' @ str_nat 0 \<notin> fst ` set (submitted unnamed_report)" by blast
  with k0 have no0: "''gpu0'' \<notin> fst ` set (submitted unnamed_report)" by simp
  from u have "\<forall>i. i < length (gpus unnamed_report) \<and> GPUInfo.name (gpus unnamed_report ! i) \<noteq> [] \<longrightarrow>
         (''gpu'' @ str_nat i, TechPowerUp, GPUInfo.name (gpus unnamed_report ! i))
           \<in> set (submitted unnamed_report)"
    by blast
  with l1 have "(''gpu'' @ str_nat 1, TechPowerUp, GPUInfo.name (gpus unnamed_report ! 1))
           \<in> set (submitted unnamed_report)"
    by blast
  with k1 ug have in1: "(''gpu1'', TechPowerUp, ''GeForce'') \<in> set (submitted unnamed_report)"
    by simp
  from c t cl g n gt z e same sub have first: "cpu two_components = Some \<lparr>CPUInfo.name = ''Intel Core i7'', manufacturer = ''GenuineIntel''\<rparr>
   \<and> cpu_tasks two_components = [(''cpu'', IntelArk, ''Intel Core i7'')]
   \<and> claimed_cpu_resolver ''GenuineIntel'' ''Intel Core i7'' = IntelArk
   \<and> (0, \<lparr>GPUInfo.name = ''GeForce''\<rparr>) \<in> set (enumerate 0 (gpus two_components))
   \<and> GPUInfo.name \<lparr>GPUInfo.name = ''GeForce''\<rparr> \<noteq> []
   \<and> (''gpu'' @ str_nat 0, TechPowerUp, ''GeForce'')
        \<in> set (gpu_tasks (enumerate 0 (gpus two_components)))
   \<and> cpu no_report = None
   \<and> cpu_tasks no_report = []
   \<and> cpu two_components = cpu (two_components\<lparr>online := [''cpu'' \<mapsto> empty_spec]\<rparr>)
   \<and> gpus two_components = gpus (two_components\<lparr>online := [''cpu'' \<mapsto> empty_spec]\<rparr>)
   \<and> submitted two_components = submitted (two_components\<lparr>online := [''cpu'' \<mapsto> empty_spec]\<rparr>)"
    by blast
  from first uc ut ug ugt us l0 no0 l1 in1 show ?thesis by (intro conjI) (erule conjunct1 | assumption | simp)+
qed

text \<open>
  The claim as the specification states it fails for a name that has the vendor's
  name in it without starting with \<^verbatim>\<open>intel\<close> and a space, when the manufacturer
  does not name the vendor: the task goes to the fallback resolver. It fails too
  for a component without a name: of the two GPUs of a report whose first GPU has
  an empty name only the second is routed, and its CPU, whose manufacturer names
  the vendor, is not routed either.
\<close>

theorem name_with_intel_inside_goes_to_fallback:
  "contains (lower ''Intel(R) Core(TM) i7-9700K'') ''intel''
   \<and> claimed_cpu_resolver [] ''Intel(R) Core(TM) i7-9700K'' = IntelArk
   \<and> cpu_tasks i7_report = [(''cpu'', Wikipedia, ''Intel(R) Core(TM) i7-9700K'')]
   \<and> length (gpus unnamed_report) = 2
   \<and> claimed_cpu_resolver ''GenuineIntel'' [] = IntelArk
   \<and> submitted unnamed_report = [(''gpu1'', TechPowerUp, ''GeForce'')]"
  by (simp add: claimed_cpu_resolver_def cpu_tasks_def submitted_def i7_report_def
      unnamed_report_def lower_def lower_char_def startswith_def str_nat.simps digit_char_def
      char_of_def bit_Suc_0_iff)

subsection \<open>The stores the resolvers build\<close>

text \<open>
  The stores the program builds are in order for every title: each resolver, run
  from a state whose store is in order, returns a result and leaves a store that is
  in order. With \<^verbatim>\<open>CACHE\<close> bound no resolver raises.
\<close>

lemma store_fallback_result:
  assumes "\<forall>t. wikipedia_entry_ok c t" and "d = JObj [] \<or> fallback_success d"
  shows "\<forall>t. wikipedia_entry_ok (c(''wikipedia:'' @ t0 \<mapsto> d)) t"
  using assms by (auto simp: wikipedia_entry_ok_def)

lemma store_vendor_result:
  assumes "\<forall>t. wikipedia_entry_ok c t" and "\<forall>t. key \<noteq> ''wikipedia:'' @ t"
  shows "\<forall>t. wikipedia_entry_ok (c(key \<mapsto> d)) t"
  using assms by (auto simp: wikipedia_entry_ok_def)

lemma wikipedia_summary_keeps_order:
  assumes "CACHE s = Some c" and "\<forall>t. wikipedia_entry_ok c t"
  shows "\<exists>d s' c'. wikipedia_summary net t0 s = (Inr d, s') \<and> is_dict d
           \<and> CACHE s' = Some c' \<and> (\<forall>t. wikipedia_entry_ok c' t)"
proof -
  from wikipedia_summary_bound [OF assms(1), of t0 net]
  show ?thesis
  proof
    assume hit: "truthy (or_None (c (''wikipedia:'' @ t0))) \<and>
            wikipedia_summary net t0 s = (Inr (or_None (c (''wikipedia:'' @ t0))), s)"
    then obtain d0 where d0: "c (''wikipedia:'' @ t0) = Some d0" "truthy d0"
      by (cases "c (''wikipedia:'' @ t0)") (simp_all add: or_None_def)
    with assms(2) [THEN spec, of t0] have "fallback_success d0"
      by (simp add: wikipedia_entry_ok_def)
    then have "is_dict d0" by (rule fallback_success_is_dict)
    with hit d0 assms show ?thesis by (simp add: or_None_def)
  next
    assume "\<not> truthy (or_None (c (''wikipedia:'' @ t0))) \<and>
            (\<exists>d s1. wikipedia_fetch net t0 s = (Inr d, s1) \<and> CACHE s1 = Some c
               \<and> wikipedia_summary net t0 s
                   = (Inr d, s1\<lparr>CACHE := Some (c(''wikipedia:'' @ t0 \<mapsto> d))\<rparr>))"
    then obtain d s1 where f: "wikipedia_fetch net t0 s = (Inr d, s1)"
      and w: "wikipedia_summary net t0 s
                = (Inr d, s1\<lparr>CACHE := Some (c(''wikipedia:'' @ t0 \<mapsto> d))\<rparr>)"
      by blast
    from wikipedia_fetch_shape [OF f] have shape: "d = JObj [] \<or> fallback_success d" .
    from store_fallback_result [OF assms(2) shape, of t0] fallback_shape_is_dict [OF shape] w
    show ?thesis by simp
  qed
qed

lemma is_dict_spec_result: "is_dict (spec_result src href kvs)"
  by (simp add: spec_result_def)

lemma vendor_try_keeps_order:
  assumes bound: "CACHE s = Some c" and ok: "\<forall>t. wikipedia_entry_ok c t"
    and body: "try_body s =
      (case http_get net url s of
         (Inl e, s1) \<Rightarrow> (Inl e, s1)
       | (Inr r, s1) \<Rightarrow>
           (let href = first_href marker (parsed r) in
            if no_href href then wikipedia_summary net nm s1
            else
              (let h = href_of href;
                   href' = (if startswith h ''http'' then h else site @ h)
               in case http_get net href' s1 of
                    (Inl e, s2) \<Rightarrow> (Inl e, s2)
                  | (Inr pr, s2) \<Rightarrow> (Inr (spec_result src href' (fields_of (parsed pr) nm)), s2))))"
    and run: "try_body s = (res, s')"
  shows "CACHE s' = Some c \<or> (\<exists>c'. CACHE s' = Some c' \<and> (\<forall>t. wikipedia_entry_ok c' t))"
    and "\<forall>d. res = Inr d \<longrightarrow> is_dict d"
proof -
  obtain r0 s1 where g1: "http_get net url s = (r0, s1)" by (cases "http_get net url s")
  then have c1: "CACHE s1 = Some c" using bound by (simp add: http_get_CACHE)
  have "(CACHE s' = Some c \<or> (\<exists>c'. CACHE s' = Some c' \<and> (\<forall>t. wikipedia_entry_ok c' t)))
      \<and> (\<forall>d. res = Inr d \<longrightarrow> is_dict d)"
  proof (cases r0)
    case (Inl e)
    with body run g1 c1 show ?thesis by auto
  next
    case (Inr r)
    show ?thesis
    proof (cases "no_href (first_href marker (parsed r))")
      case True
      with body run g1 Inr have "wikipedia_summary net nm s1 = (res, s')" by (simp add: Let_def)
      with wikipedia_summary_keeps_order [OF c1 ok, of net nm] show ?thesis by auto
    next
      case False
      define href' where "href' = (if startswith (href_of (first_href marker (parsed r))) ''http''
          then href_of (first_href marker (parsed r))
          else site @ href_of (first_href marker (parsed r)))"
      obtain r0' s2 where g2: "http_get net href' s1 = (r0', s2)"
        by (cases "http_get net href' s1")
      then have c2: "CACHE s2 = Some c" using c1 by (simp add: http_get_CACHE)
      from body run g1 Inr False g2
      have "(res, s') = (case r0' of Inl e \<Rightarrow> (Inl e, s2)
          | Inr pr \<Rightarrow> (Inr (spec_result src href' (fields_of (parsed pr) nm)), s2))"
        by (simp add: Let_def href'_def split: sum.splits)
      with c2 show ?thesis by (cases r0') (auto simp: is_dict_spec_result)
    qed
  qed
  then show "CACHE s' = Some c \<or> (\<exists>c'. CACHE s' = Some c' \<and> (\<forall>t. wikipedia_entry_ok c' t))"
    and "\<forall>d. res = Inr d \<longrightarrow> is_dict d" by simp_all
qed

lemma vendor_keeps_order:
  assumes bound: "CACHE s = Some c" and ok: "\<forall>t. wikipedia_entry_ok c t"
    and key: "\<forall>t. key \<noteq> ''wikipedia:'' @ t"
    and tb: "\<And>res s'. try_body s = (res, s') \<Longrightarrow>
        (\<exists>c'. CACHE s' = Some c' \<and> (\<forall>t. wikipedia_entry_ok c' t)) \<and> (\<forall>d. res = Inr d \<longrightarrow> is_dict d)"
    and fetch: "fetch_fn s = (case try_body s of (Inl e, s') \<Rightarrow> wikipedia_summary net nm s'
                              | (Inr d, s') \<Rightarrow> (Inr d, s'))"
  shows "\<exists>d s' c'. cache_or_fetch_json key fetch_fn s = (Inr d, s')
           \<and> CACHE s' = Some c' \<and> (\<forall>t. wikipedia_entry_ok c' t)"
proof (cases "truthy (or_None (c key))")
  case True
  with bound ok show ?thesis by (simp add: cache_layer_hit)
next
  case False
  obtain res s1 where t: "try_body s = (res, s1)" by (cases "try_body s")
  from tb [OF t] obtain c1 where c1: "CACHE s1 = Some c1" "\<forall>t. wikipedia_entry_ok c1 t"
    and dict: "\<forall>d. res = Inr d \<longrightarrow> is_dict d" by blast
  have "\<exists>d s2 c2. fetch_fn s = (Inr d, s2) \<and> is_dict d \<and> CACHE s2 = Some c2
      \<and> (\<forall>t. wikipedia_entry_ok c2 t)"
  proof (cases res)
    case (Inl e)
    with fetch t have "fetch_fn s = wikipedia_summary net nm s1" by simp
    with wikipedia_summary_keeps_order [OF c1, of net nm] show ?thesis by simp
  next
    case (Inr d)
    with fetch t c1 dict show ?thesis by simp
  qed
  then obtain d s2 c2 where f: "fetch_fn s = (Inr d, s2)" and d: "is_dict d"
    and c2: "CACHE s2 = Some c2" "\<forall>t. wikipedia_entry_ok c2 t" by blast
  from bound False f d c2(1)
  have "cache_or_fetch_json key fetch_fn s = (Inr d, s2\<lparr>CACHE := Some (c2(key \<mapsto> d))\<rparr>)"
    by (rule cache_layer_store)
  with store_vendor_result [OF c2(2) key, of d] show ?thesis by simp
qed

lemma resolve_keeps_order:
  assumes bound: "CACHE s = Some c" and ok: "\<forall>t. wikipedia_entry_ok c t"
  shows "\<exists>d s' c'. resolve net r nm s = (Inr d, s')
           \<and> CACHE s' = Some c' \<and> (\<forall>t. wikipedia_entry_ok c' t)"
proof (cases r)
  case Wikipedia
  with wikipedia_summary_keeps_order [OF assms, of net nm] show ?thesis
    by (auto simp: resolve_def)
next
  case IntelArk
  have tb: "(\<exists>c'. CACHE s' = Some c' \<and> (\<forall>t. wikipedia_entry_ok c' t)) \<and> (\<forall>d. res = Inr d \<longrightarrow> is_dict d)"
    if "intel_ark_try net nm s = (res, s')" for res s'
    using vendor_try_keeps_order [where try_body = "intel_ark_try net nm"
        and url = "intel_search_url nm" and marker = "''/products/''"
        and site = "''https://ark.intel.com''" and src = "''intel_ark''"
        and fields_of = intel_ark_fields, OF assms _ that] ok
    by (auto simp: intel_ark_try_def)
  have "\<exists>d s' c'. cache_or_fetch_json (''intel:'' @ nm) (intel_ark_fetch net nm) s = (Inr d, s')
           \<and> CACHE s' = Some c' \<and> (\<forall>t. wikipedia_entry_ok c' t)"
    by (rule vendor_keeps_order [where try_body = "intel_ark_try net nm", OF assms _ tb])
      (simp_all add: intel_ark_fetch_def)
  with IntelArk show ?thesis by (simp add: resolve_def intel_ark_specs_def)
next
  case TechPowerUp
  have tb: "(\<exists>c'. CACHE s' = Some c' \<and> (\<forall>t. wikipedia_entry_ok c' t)) \<and> (\<forall>d. res = Inr d \<longrightarrow> is_dict d)"
    if "techpowerup_try net nm s = (res, s')" for res s'
    using vendor_try_keeps_order [where try_body = "techpowerup_try net nm"
        and url = "techpowerup_search_url nm" and marker = "''/gpu-specs/''"
        and site = "''https://www.techpowerup.com''" and src = "''techpowerup''"
        and fields_of = techpowerup_fields, OF assms _ that] ok
    by (auto simp: techpowerup_try_def)
  have "\<exists>d s' c'. cache_or_fetch_json (''tpu:'' @ nm) (techpowerup_fetch net nm) s = (Inr d, s')
           \<and> CACHE s' = Some c' \<and> (\<forall>t. wikipedia_entry_ok c' t)"
    by (rule vendor_keeps_order [where try_body = "techpowerup_try net nm", OF assms _ tb])
      (simp_all add: techpowerup_fetch_def)
  with TechPowerUp show ?thesis by (simp add: resolve_def techpowerup_gpu_specs_def)
qed

lemma empty_store_in_order: "\<forall>t. wikipedia_entry_ok Map.empty t"
  by (simp add: wikipedia_entry_ok_def)

end
